theory Spec2Isabelle
  imports Main "HOL-Library.Sublist"
begin

section \<open>Strings\<close>

text \<open>
  Go strings are byte sequences; they are modelled as \<open>string\<close> (a list of 8-bit
  characters). The functions of package \<open>strings\<close> that the library calls are written
  out on lists.
\<close>

definition HasPrefix :: "string \<Rightarrow> string \<Rightarrow> bool" where
  "HasPrefix s pre \<longleftrightarrow> length pre \<le> length s \<and> take (length pre) s = pre"

definition HasSuffix :: "string \<Rightarrow> string \<Rightarrow> bool" where
  "HasSuffix s suf \<longleftrightarrow> length suf \<le> length s \<and> drop (length s - length suf) s = suf"

definition TrimPrefix :: "string \<Rightarrow> string \<Rightarrow> string" where
  "TrimPrefix s pre = (if HasPrefix s pre then drop (length pre) s else s)"

definition TrimSuffix :: "string \<Rightarrow> string \<Rightarrow> string" where
  "TrimSuffix s suf = (if HasSuffix s suf then take (length s - length suf) s else s)"

fun Contains :: "string \<Rightarrow> string \<Rightarrow> bool" where
  "Contains [] sub = (sub = [])"
| "Contains (c # cs) sub = (HasPrefix (c # cs) sub \<or> Contains cs sub)"

text \<open>
  \<open>strings.TrimSpace\<close> removes the leading and trailing runes for which
  \<open>unicode.IsSpace\<close> holds. On bytes: a string starts (ends) with such a rune exactly
  when it starts (ends) with the UTF-8 encoding of one, and the decoder reads no other
  byte sequence as one of them. \<open>spaceRunes\<close> lists these encodings: the six ASCII
  spaces, U+0085, U+00A0, U+1680, U+2000 to U+200A, U+2028, U+2029, U+202F, U+205F and
  U+3000.
\<close>

definition spaceRunes :: "string list" where
  "spaceRunes =
     [[CHR 0x09], [CHR 0x0A], [CHR 0x0B], [CHR 0x0C], [CHR 0x0D], [CHR 0x20],
      [CHR 0xC2, CHR 0x85], [CHR 0xC2, CHR 0xA0],
      [CHR 0xE1, CHR 0x9A, CHR 0x80],
      [CHR 0xE2, CHR 0x80, CHR 0x80], [CHR 0xE2, CHR 0x80, CHR 0x81],
      [CHR 0xE2, CHR 0x80, CHR 0x82], [CHR 0xE2, CHR 0x80, CHR 0x83],
      [CHR 0xE2, CHR 0x80, CHR 0x84], [CHR 0xE2, CHR 0x80, CHR 0x85],
      [CHR 0xE2, CHR 0x80, CHR 0x86], [CHR 0xE2, CHR 0x80, CHR 0x87],
      [CHR 0xE2, CHR 0x80, CHR 0x88], [CHR 0xE2, CHR 0x80, CHR 0x89],
      [CHR 0xE2, CHR 0x80, CHR 0x8A],
      [CHR 0xE2, CHR 0x80, CHR 0xA8], [CHR 0xE2, CHR 0x80, CHR 0xA9],
      [CHR 0xE2, CHR 0x80, CHR 0xAF], [CHR 0xE2, CHR 0x81, CHR 0x9F],
      [CHR 0xE3, CHR 0x80, CHR 0x80]]"

definition leadingSpace :: "string \<Rightarrow> nat" where
  \<comment> \<open>the width in bytes of the space rune the string starts with, 0 if there is none\<close>
  "leadingSpace s = (case List.find (HasPrefix s) spaceRunes of None \<Rightarrow> 0 | Some w \<Rightarrow> length w)"

definition trailingSpace :: "string \<Rightarrow> nat" where
  \<comment> \<open>the width in bytes of the space rune the string ends with, 0 if there is none\<close>
  "trailingSpace s = (case List.find (HasSuffix s) spaceRunes of None \<Rightarrow> 0 | Some w \<Rightarrow> length w)"

function TrimLeftSpace :: "string \<Rightarrow> string" where
  "TrimLeftSpace s =
     (if leadingSpace s = 0 then s else TrimLeftSpace (drop (leadingSpace s) s))"
  by pat_completeness auto
termination
proof (relation "measure length")
  show "wf (measure length)" by simp
next
  fix s :: string
  assume "leadingSpace s \<noteq> 0"
  then obtain w where w: "List.find (HasPrefix s) spaceRunes = Some w" and l: "leadingSpace s = length w"
    by (auto simp: leadingSpace_def split: option.splits)
  from w have "HasPrefix s w" by (auto simp: find_Some_iff)
  with l have "leadingSpace s \<le> length s"
    by (simp add: HasPrefix_def)
  with \<open>leadingSpace s \<noteq> 0\<close> show "(drop (leadingSpace s) s, s) \<in> measure length"
    by simp
qed

function TrimRightSpace :: "string \<Rightarrow> string" where
  "TrimRightSpace s =
     (if trailingSpace s = 0 then s else TrimRightSpace (take (length s - trailingSpace s) s))"
  by pat_completeness auto
termination
proof (relation "measure length")
  show "wf (measure length)" by simp
next
  fix s :: string
  assume "trailingSpace s \<noteq> 0"
  then obtain w where w: "List.find (HasSuffix s) spaceRunes = Some w" and l: "trailingSpace s = length w"
    by (auto simp: trailingSpace_def split: option.splits)
  from w have "HasSuffix s w" by (auto simp: find_Some_iff)
  with l have "trailingSpace s \<le> length s"
    by (simp add: HasSuffix_def)
  with \<open>trailingSpace s \<noteq> 0\<close> show "(take (length s - trailingSpace s) s, s) \<in> measure length"
    by simp
qed

definition TrimSpace :: "string \<Rightarrow> string" where
  "TrimSpace s = TrimRightSpace (TrimLeftSpace s)"

section \<open>Actions, directory modes and rules (gignore.go)\<close>

text \<open>
  \<open>Action\<close> and \<open>DirectoryMode\<close> are Go integer types whose named constants start
  at \<open>iota + 1\<close>; every other integer is a value of the type that \<open>Validate\<close> rejects.
\<close>

type_synonym Action = int

definition INCLUDE :: Action where [simp]: "INCLUDE = 1"
definition EXCLUDE :: Action where [simp]: "EXCLUDE = 2"

datatype error =
    semanticConflictError | redundantRuleError | unreachableRuleError
  | ruleNotFoundError | targetRuleNotFoundError | ruleToMoveNotFoundError
  | emptyGlobPatternError | emptyPathError | emptyExtensionError
  | emptyDirectoryNameError | invalidActionError | invalidDirectoryModeError
  | invalidateDirectionError
  | sourceIdxOutOfRangeError | targetIdxOutofRangeError
  | invalidDirectoryError

definition Action_Validate :: "Action \<Rightarrow> error option" where
  "Action_Validate a = (if a = INCLUDE \<or> a = EXCLUDE then None else Some invalidActionError)"

definition Action_Prefix :: "Action \<Rightarrow> string" where
  "Action_Prefix a = (if a = INCLUDE then '''' else if a = EXCLUDE then ''!'' else '''')"

type_synonym DirectoryMode = int

definition DIRECTORY :: DirectoryMode where [simp]: "DIRECTORY = 1"
definition CHILDREN :: DirectoryMode where [simp]: "CHILDREN = 2"
definition RECURSIVE :: DirectoryMode where [simp]: "RECURSIVE = 3"
definition ANYWHERE :: DirectoryMode where [simp]: "ANYWHERE = 4"
definition ROOT_ONLY :: DirectoryMode where [simp]: "ROOT_ONLY = 5"

definition DirectoryMode_Validate :: "DirectoryMode \<Rightarrow> error option" where
  "DirectoryMode_Validate d =
     (if d = DIRECTORY \<or> d = RECURSIVE \<or> d = CHILDREN \<or> d = ANYWHERE \<or> d = ROOT_ONLY
      then None else Some invalidDirectoryModeError)"

definition DirectoryMode_Prefix :: "DirectoryMode \<Rightarrow> string" where
  "DirectoryMode_Prefix d =
     (if d = ANYWHERE then ''**/'' else if d = ROOT_ONLY then ''/'' else '''')"

definition DirectoryMode_Suffix :: "DirectoryMode \<Rightarrow> string" where
  "DirectoryMode_Suffix d =
     (if d = DIRECTORY then ''/'' else if d = CHILDREN then ''/*''
      else if d = RECURSIVE then ''/**'' else '''')"

text \<open>
  The interface \<open>Ruler\<close> has four implementations; a value of the interface is one of
  the four structs.
\<close>

datatype Ruler =
    FileRule string Action
  | ExtensionRule string Action
  | DirectoryRule string DirectoryMode Action
  | GlobRule string Action

fun Render :: "Ruler \<Rightarrow> string" where
  "Render (FileRule path act) = Action_Prefix act @ path"
| "Render (ExtensionRule ext act) = Action_Prefix act @ ''*.'' @ ext"
| "Render (DirectoryRule name mode act) =
     Action_Prefix act @ DirectoryMode_Prefix mode @ name @ DirectoryMode_Suffix mode"
| "Render (GlobRule pattern act) = Action_Prefix act @ pattern"

fun Action :: "Ruler \<Rightarrow> Action" where
  "Action (FileRule path act) = act"
| "Action (ExtensionRule ext act) = act"
| "Action (DirectoryRule name mode act) = act"
| "Action (GlobRule pattern act) = act"

definition stripBang :: "string \<Rightarrow> string" where
  \<comment> \<open>the body shared by \<open>ExtensionRule.Pattern\<close> and \<open>DirectoryRule.Pattern\<close>\<close>
  "stripBang rendered = (if HasPrefix rendered ''!'' then drop 1 rendered else rendered)"

fun Pattern :: "Ruler \<Rightarrow> string" where
  "Pattern (FileRule path act) = path"
| "Pattern (ExtensionRule ext act) = stripBang (Render (ExtensionRule ext act))"
| "Pattern (DirectoryRule name mode act) = stripBang (Render (DirectoryRule name mode act))"
| "Pattern (GlobRule pattern act) = pattern"

definition rulesEqual :: "Ruler \<Rightarrow> Ruler \<Rightarrow> bool" where
  "rulesEqual left right \<longleftrightarrow> Pattern left = Pattern right \<and> Action left = Action right"

subsection \<open>Constructors\<close>

definition validatePath :: "string \<Rightarrow> error + string" where
  "validatePath path =
     (let path = TrimSpace path in if path = [] then Inl emptyPathError else Inr path)"

definition NewFileRule :: "string \<Rightarrow> Action \<Rightarrow> error + Ruler" where
  "NewFileRule path act =
     (case validatePath path of
        Inl err \<Rightarrow> Inl err
      | Inr cleanPath \<Rightarrow>
          (case Action_Validate act of
             Some err \<Rightarrow> Inl err
           | None \<Rightarrow> Inr (FileRule cleanPath act)))"

definition validateExtension :: "string \<Rightarrow> error + string" where
  "validateExtension ext =
     (let ext = TrimSpace ext; ext = TrimPrefix ext ''*.''
      in if ext = [] then Inl emptyExtensionError else Inr ext)"

definition NewExtensionRule :: "string \<Rightarrow> Action \<Rightarrow> error + Ruler" where
  "NewExtensionRule ext act =
     (case validateExtension ext of
        Inl err \<Rightarrow> Inl err
      | Inr cleanedExt \<Rightarrow>
          (case Action_Validate act of
             Some err \<Rightarrow> Inl err
           | None \<Rightarrow> Inr (ExtensionRule cleanedExt act)))"

definition validateDirectoryName :: "string \<Rightarrow> error + string" where
  "validateDirectoryName name =
     (let name = TrimSpace name; name = TrimPrefix name ''/''; name = TrimSuffix name ''/''
      in if name = [] then Inl emptyDirectoryNameError else Inr name)"

definition NewDirectoryRule :: "string \<Rightarrow> DirectoryMode \<Rightarrow> Action \<Rightarrow> error + Ruler" where
  "NewDirectoryRule path mode act =
     (case validateDirectoryName path of
        Inl err \<Rightarrow> Inl err
      | Inr cleanedName \<Rightarrow>
          (case DirectoryMode_Validate mode of
             Some err \<Rightarrow> Inl err
           | None \<Rightarrow>
               (case Action_Validate act of
                  Some err \<Rightarrow> Inl err
                | None \<Rightarrow> Inr (DirectoryRule cleanedName mode act))))"

definition validateGlobPattern :: "string \<Rightarrow> error + string" where
  "validateGlobPattern pattern =
     (let pattern = TrimSpace pattern
      in if pattern = [] then Inl emptyGlobPatternError else Inr pattern)"

definition NewGlobRule :: "string \<Rightarrow> Action \<Rightarrow> error + Ruler" where
  "NewGlobRule pattern act =
     (case validateGlobPattern pattern of
        Inl err \<Rightarrow> Inl err
      | Inr cleanPattern \<Rightarrow>
          (case Action_Validate act of
             Some err \<Rightarrow> Inl err
           | None \<Rightarrow> Inr (GlobRule cleanPattern act)))"

text \<open>A valid rule is one that its constructor returns.\<close>

fun validRule :: "Ruler \<Rightarrow> bool" where
  "validRule (FileRule path act) \<longleftrightarrow> (\<exists>s. NewFileRule s act = Inr (FileRule path act))"
| "validRule (ExtensionRule ext act) \<longleftrightarrow> (\<exists>s. NewExtensionRule s act = Inr (ExtensionRule ext act))"
| "validRule (DirectoryRule name mode act) \<longleftrightarrow>
     (\<exists>s. NewDirectoryRule s mode act = Inr (DirectoryRule name mode act))"
| "validRule (GlobRule pattern act) \<longleftrightarrow> (\<exists>s. NewGlobRule s act = Inr (GlobRule pattern act))"

section \<open>Subsumption and the conflict classifier\<close>

type_synonym ConflictType = string

definition SEMANTIC_CONFLICT :: ConflictType where "SEMANTIC_CONFLICT = ''SEMANTIC_CONFLICT''"
definition REDUNDANT_RULE :: ConflictType where "REDUNDANT_RULE = ''REDUNANT_RULE''"
definition UNREACHABLE_RULE :: ConflictType where "UNREACHABLE_RULE = ''UNREACHABLE_RULE''"
definition INEFFECTIVE_RULE :: ConflictType where "INEFFECTIVE_RULE = ''INEFFECTIVE_RULE''"

record Conflict =
  Left :: Ruler
  Right :: Ruler
  ConflictType :: ConflictType

definition dirModeSubsumes :: "DirectoryMode \<Rightarrow> DirectoryMode \<Rightarrow> bool" where
  "dirModeSubsumes broader narrower =
     (if broader = RECURSIVE \<and> (narrower = DIRECTORY \<or> narrower = CHILDREN) then True
      else if broader = CHILDREN \<and> narrower = DIRECTORY then True
      else False)"

definition pathSubsumes :: "string \<Rightarrow> string \<Rightarrow> bool" where
  "pathSubsumes broader specific = HasPrefix specific broader"

definition pathStartsWith :: "string \<Rightarrow> string \<Rightarrow> bool" where
  "pathStartsWith path pre = HasPrefix path pre"

fun directorySubsumes :: "string \<Rightarrow> DirectoryMode \<Rightarrow> Action \<Rightarrow> Ruler \<Rightarrow> bool" where
  "directorySubsumes name mode act (DirectoryRule oname omode oact) =
     (if name = oname then dirModeSubsumes mode omode
      else pathSubsumes (Pattern (DirectoryRule name mode act))
                        (Pattern (DirectoryRule oname omode oact)))"
| "directorySubsumes name mode act (FileRule path oact) =
     pathStartsWith (Pattern (FileRule path oact)) (name @ ''/'')"
| "directorySubsumes name mode act (GlobRule pattern oact) =
     (if mode = RECURSIVE
      then pathStartsWith (Pattern (GlobRule pattern oact))
             (TrimSuffix (Pattern (DirectoryRule name mode act)) ''/**'')
      else False)"
| "directorySubsumes name mode act (ExtensionRule ext oact) = False"

fun globSubsumes :: "string \<Rightarrow> Ruler \<Rightarrow> bool" where
  "globSubsumes pattern (FileRule path oact) =
     (if HasPrefix pattern ''*.''
      then HasSuffix (Pattern (FileRule path oact)) (''.'' @ TrimPrefix pattern ''*.'')
      else False)"
| "globSubsumes pattern other = False"

fun extensionSubsumes :: "string \<Rightarrow> Ruler \<Rightarrow> bool" where
  "extensionSubsumes ext (FileRule path oact) =
     HasSuffix (Pattern (FileRule path oact)) (''.'' @ ext)"
| "extensionSubsumes ext (GlobRule pattern oact) =
     (if HasSuffix pattern (''.'' @ ext) then True else False)"
| "extensionSubsumes ext other = False"

fun subsumes :: "Ruler \<Rightarrow> Ruler \<Rightarrow> bool" where
  "subsumes (DirectoryRule name mode act) right = directorySubsumes name mode act right"
| "subsumes (GlobRule pattern act) right = globSubsumes pattern right"
| "subsumes (ExtensionRule ext act) right = extensionSubsumes ext right"
| "subsumes (FileRule path act) right = False"

fun ruleAffectsPatternSpace :: "Ruler \<Rightarrow> Ruler \<Rightarrow> Ruler \<Rightarrow> bool" where
  "ruleAffectsPatternSpace exception broader specific =
     (let broaderBase = TrimSuffix (Pattern broader) ''/**'' in
      if \<not> HasPrefix (Pattern exception) broaderBase then False
      else (case specific of
              DirectoryRule sname smode sact \<Rightarrow>
                (if smode = DIRECTORY then HasPrefix (Pattern exception) sname
                 else HasPrefix (Pattern exception) broaderBase)
            | FileRule spath sact \<Rightarrow>
                HasPrefix (Pattern (FileRule spath sact)) (TrimPrefix (Pattern exception) ''!'')
            | _ \<Rightarrow> HasPrefix (Pattern exception) broaderBase))"

fun hasInterveningExceptions :: "Ruler \<Rightarrow> Ruler \<Rightarrow> Ruler list \<Rightarrow> bool" where
  "hasInterveningExceptions broader specific [] = False"
| "hasInterveningExceptions broader specific (rule # intervening) =
     (if Action rule \<noteq> Action broader \<and> ruleAffectsPatternSpace rule broader specific
      then True
      else hasInterveningExceptions broader specific intervening)"

definition checkConflict :: "Ruler \<Rightarrow> Ruler \<Rightarrow> Ruler list \<Rightarrow> Conflict option" where
  "checkConflict left right intervening =
     (if Pattern left = Pattern right then
        (if Action left \<noteq> Action right
         then Some \<lparr>Left = left, Right = right, ConflictType = SEMANTIC_CONFLICT\<rparr>
         else Some \<lparr>Left = left, Right = right, ConflictType = REDUNDANT_RULE\<rparr>)
      else if Action left = Action right \<and> subsumes left right then
        (if hasInterveningExceptions left right intervening then None
         else Some \<lparr>Left = left, Right = right, ConflictType = UNREACHABLE_RULE\<rparr>)
      else if Action left = Action right \<and> subsumes right left then
        (if hasInterveningExceptions right left intervening then None
         else Some \<lparr>Left = right, Right = left, ConflictType = UNREACHABLE_RULE\<rparr>)
      else if Action left = EXCLUDE \<and> Action right = INCLUDE \<and> subsumes right left
        then Some \<lparr>Left = left, Right = right, ConflictType = INEFFECTIVE_RULE\<rparr>
      else None)"

section \<open>The ignore file\<close>

text \<open>
  \<open>IgnoreFile\<close> has the single field \<open>rules\<close>; methods with a pointer receiver take the
  rule sequence and return the new one.
\<close>

type_synonym IgnoreFile = "Ruler list"

definition FindConflicts :: "IgnoreFile \<Rightarrow> Conflict list" where
  "FindConflicts rules =
     concat (map (\<lambda>i.
       List.map_filter (\<lambda>j.
         if i \<ge> j then None
         else checkConflict (rules ! i) (rules ! j) (take (j - (i + 1)) (drop (i + 1) rules)))
         [0 ..< length rules])
       [0 ..< length rules])"

section \<open>Results (results.go)\<close>

type_synonym ActionResult = int

definition REVIEW_RECOMMENDED :: ActionResult where [simp]: "REVIEW_RECOMMENDED = 1"
definition FIXED :: ActionResult where [simp]: "FIXED = 2"
definition ADDED :: ActionResult where [simp]: "ADDED = 3"
definition MOVED :: ActionResult where [simp]: "MOVED = 4"
definition REMOVED :: ActionResult where [simp]: "REMOVED = 5"

type_synonym ActionReason = int

definition REQUESTED :: ActionReason where [simp]: "REQUESTED = 1"
definition AUTOMATED_FIX :: ActionReason where [simp]: "AUTOMATED_FIX = 2"
definition FIX_UNKNOWN :: ActionReason where [simp]: "FIX_UNKNOWN = 3"

text \<open>The field \<open>Rule\<close> holds an interface value, which is nil in the zero \<open>Result{}\<close>.\<close>

record Result =
  Rule :: "Ruler option"
  Result :: ActionResult
  Reason :: ActionReason

definition zeroResult :: Result where
  "zeroResult = \<lparr>Rule = None, Result = 0, Reason = 0\<rparr>"

section \<open>Lookup, deletion and moves\<close>

fun findRuleIndex_from :: "nat \<Rightarrow> Ruler list \<Rightarrow> Ruler \<Rightarrow> int" where
  "findRuleIndex_from i [] target = - 1"
| "findRuleIndex_from i (rule # rest) target =
     (if rulesEqual rule target then int i else findRuleIndex_from (Suc i) rest target)"

definition findRuleIndex :: "IgnoreFile \<Rightarrow> Ruler \<Rightarrow> int" where
  "findRuleIndex rules target = findRuleIndex_from 0 rules target"

definition ruleShouldComeBefore :: "Ruler \<Rightarrow> Ruler \<Rightarrow> bool" where
  "ruleShouldComeBefore newRule existing =
     (if Action newRule = Action existing \<and> subsumes newRule existing then True else False)"

fun deleteMatchingRule_from ::
  "IgnoreFile \<Rightarrow> nat \<Rightarrow> Ruler list \<Rightarrow> Ruler \<Rightarrow> ActionReason \<Rightarrow> IgnoreFile \<times> (error + Result)" where
  "deleteMatchingRule_from rules i [] target reason = (rules, Inl ruleNotFoundError)"
| "deleteMatchingRule_from rules i (rule # rest) target reason =
     (if rulesEqual rule target
      then (take i rules @ drop (i + 1) rules,
            Inr \<lparr>Rule = Some target, Result = REMOVED, Reason = reason\<rparr>)
      else deleteMatchingRule_from rules (Suc i) rest target reason)"

definition deleteMatchingRule ::
  "IgnoreFile \<Rightarrow> Ruler \<Rightarrow> ActionReason \<Rightarrow> IgnoreFile \<times> (error + Result)" where
  "deleteMatchingRule rules target reason = deleteMatchingRule_from rules 0 rules target reason"

type_synonym MoveDirection = int

definition BEFORE :: MoveDirection where [simp]: "BEFORE = 1"
definition AFTER :: MoveDirection where [simp]: "AFTER = 2"

text \<open>
  The low-level move removes the rule before it validates the adjusted target, so a
  target that is out of range leaves the sequence one rule shorter.
\<close>

definition moveRule :: "IgnoreFile \<Rightarrow> int \<Rightarrow> int \<Rightarrow> IgnoreFile \<times> error option" where
  "moveRule rules from to =
     (if from < 0 \<or> from \<ge> int (length rules) then (rules, Some sourceIdxOutOfRangeError)
      else if from = to then (rules, None)
      else
        (let rule = rules ! nat from;
             rules1 = take (nat from) rules @ drop (nat from + 1) rules;
             to1 = (if to > from then to - 1 else to)
         in if to1 < 0 \<or> to1 > int (length rules1) then (rules1, Some targetIdxOutofRangeError)
            else (take (nat to1) rules1 @ [rule] @ drop (nat to1) rules1, None)))"

definition MoveRule ::
  "IgnoreFile \<Rightarrow> Ruler \<Rightarrow> Ruler \<Rightarrow> MoveDirection \<Rightarrow> ActionReason \<Rightarrow> IgnoreFile \<times> (error + Result)" where
  "MoveRule rules ruleToMove targetRule direction reason =
     (let moveIdx = findRuleIndex rules ruleToMove;
          targetIdx = findRuleIndex rules targetRule
      in if moveIdx = - 1 then (rules, Inl ruleToMoveNotFoundError)
         else if targetIdx = - 1 then (rules, Inl targetRuleNotFoundError)
         else if direction = BEFORE then
           (if moveIdx = targetIdx - 1 then (rules, Inr zeroResult)
            else if moveIdx = targetIdx then (rules, Inr zeroResult)
            else (case moveRule rules moveIdx targetIdx of
                    (rules', Some err) \<Rightarrow> (rules', Inl err)
                  | (rules', None) \<Rightarrow>
                      (rules', Inr \<lparr>Rule = Some ruleToMove, Result = MOVED, Reason = reason\<rparr>)))
         else if direction = AFTER then
           (if moveIdx = targetIdx + 1 then (rules, Inr zeroResult)
            else (case moveRule rules moveIdx (targetIdx + 1) of
                    (rules', Some err) \<Rightarrow> (rules', Inl err)
                  | (rules', None) \<Rightarrow>
                      (rules', Inr \<lparr>Rule = Some ruleToMove, Result = MOVED, Reason = reason\<rparr>)))
         else (rules, Inl invalidateDirectionError))"

section \<open>The conflict fixer\<close>

definition fixConflict :: "IgnoreFile \<Rightarrow> Conflict \<Rightarrow> IgnoreFile \<times> (error + Result)" where
  "fixConflict rules conflict =
     (if ConflictType conflict = REDUNDANT_RULE
        then deleteMatchingRule rules (Left conflict) AUTOMATED_FIX
      else if ConflictType conflict = UNREACHABLE_RULE then
        (let leftIdx = findRuleIndex rules (Left conflict);
             rightIdx = findRuleIndex rules (Right conflict)
         in if rightIdx = leftIdx + 1
            then deleteMatchingRule rules (Right conflict) AUTOMATED_FIX
            else MoveRule rules (Right conflict) (Left conflict) AFTER AUTOMATED_FIX)
      else if ConflictType conflict = SEMANTIC_CONFLICT
        then (rules, Inr \<lparr>Rule = Some (Left conflict), Result = REVIEW_RECOMMENDED,
                          Reason = FIX_UNKNOWN\<rparr>)
      else if ConflictType conflict = INEFFECTIVE_RULE
        then MoveRule rules (Left conflict) (Right conflict) AFTER AUTOMATED_FIX
      else (rules, Inr zeroResult))"

text \<open>
  The outcome of \<open>FixConflicts\<close>: the rule sequence it leaves, the results it returns,
  its error, and (a ghost field, not in the source) the number of iterations of the outer
  loop that were entered.
\<close>

record FixRun =
  rulesAfter :: IgnoreFile
  fixLogs :: "Result list"
  fixError :: "error option"
  passes :: nat

text \<open>The inner loop over the conflicts of one pass; the first error returns.\<close>

fun fixEach :: "IgnoreFile \<Rightarrow> Conflict list \<Rightarrow> Result list \<Rightarrow> IgnoreFile \<times> Result list \<times> error option" where
  "fixEach rules [] logs = (rules, logs, None)"
| "fixEach rules (conflict # conflicts) logs =
     (case fixConflict rules conflict of
        (rules', Inl err) \<Rightarrow> (rules', logs, Some err)
      | (rules', Inr description) \<Rightarrow> fixEach rules' conflicts (logs @ [description]))"

text \<open>The outer loop \<open>for range maxPasses\<close>, by the number of iterations left.\<close>

fun fixPasses :: "nat \<Rightarrow> IgnoreFile \<Rightarrow> Result list \<Rightarrow> nat \<Rightarrow> FixRun" where
  "fixPasses 0 rules logs done =
     \<lparr>rulesAfter = rules, fixLogs = logs, fixError = None, passes = done\<rparr>"
| "fixPasses (Suc left) rules logs done =
     (let conflicts = FindConflicts rules in
      if length conflicts = 0
      then \<lparr>rulesAfter = rules, fixLogs = logs, fixError = None, passes = Suc done\<rparr>
      else (case fixEach rules conflicts logs of
              (rules', logs', Some err) \<Rightarrow>
                \<lparr>rulesAfter = rules', fixLogs = logs', fixError = Some err, passes = Suc done\<rparr>
            | (rules', logs', None) \<Rightarrow> fixPasses left rules' logs' (Suc done)))"

text \<open>A range over a non-positive integer runs no iteration.\<close>

definition FixConflicts :: "IgnoreFile \<Rightarrow> int \<Rightarrow> FixRun" where
  "FixConflicts rules maxPasses = fixPasses (nat maxPasses) rules [] 0"

section \<open>Smart insertion\<close>

definition conflictError :: "ConflictType \<Rightarrow> error option" where
  \<comment> \<open>the rejecting cases of the switch in \<open>addRuleWithConflictResolution\<close>\<close>
  "conflictError t =
     (if t = SEMANTIC_CONFLICT then Some semanticConflictError
      else if t = REDUNDANT_RULE then Some redundantRuleError
      else if t = UNREACHABLE_RULE then Some unreachableRuleError
      else None)"

text \<open>
  The loop over the existing rules: \<open>i\<close> is the index of \<open>existing\<close>, the rules after it
  are the intervening rules \<open>f.rules[i+1:]\<close>.
\<close>

fun insertionPoint :: "Ruler \<Rightarrow> nat \<Rightarrow> Ruler list \<Rightarrow> nat \<Rightarrow> error + nat" where
  "insertionPoint rule i [] idealInsertionPoint = Inr idealInsertionPoint"
| "insertionPoint rule i (existing # intervening) idealInsertionPoint =
     (case (case checkConflict existing rule intervening of
              None \<Rightarrow> Inr idealInsertionPoint
            | Some conflict \<Rightarrow>
                (case conflictError (ConflictType conflict) of
                   Some err \<Rightarrow> Inl err
                 | None \<Rightarrow> if ConflictType conflict = INEFFECTIVE_RULE then Inr i
                           else Inr idealInsertionPoint)) of
        Inl err \<Rightarrow> Inl err
      | Inr point \<Rightarrow>
          insertionPoint rule (Suc i) intervening
            (if ruleShouldComeBefore rule existing \<and> i < point then i else point))"

definition addRuleWithConflictResolution ::
  "IgnoreFile \<Rightarrow> Ruler \<Rightarrow> IgnoreFile \<times> (error + Result list)" where
  "addRuleWithConflictResolution rules rule =
     (case insertionPoint rule 0 rules (length rules) of
        Inl err \<Rightarrow> (rules, Inl err)
      | Inr idealInsertionPoint \<Rightarrow>
          (let rules1 = take idealInsertionPoint rules @ [rule] @ drop idealInsertionPoint rules;
               addition = \<lparr>Rule = Some rule, Result = ADDED, Reason = REQUESTED\<rparr>;
               run = FixConflicts rules1 20
           in case fixError run of
                Some err \<Rightarrow> (rulesAfter run, Inl err)
              | None \<Rightarrow> (rulesAfter run, Inr (addition # fixLogs run))))"

section \<open>Facade methods\<close>

definition AddFile :: "IgnoreFile \<Rightarrow> string \<Rightarrow> Action \<Rightarrow> IgnoreFile \<times> (error + Result list)" where
  "AddFile rules path action =
     (case NewFileRule path action of
        Inl err \<Rightarrow> (rules, Inl err)
      | Inr rule \<Rightarrow> addRuleWithConflictResolution rules rule)"

definition DeleteFile :: "IgnoreFile \<Rightarrow> string \<Rightarrow> Action \<Rightarrow> IgnoreFile \<times> (error + Result)" where
  "DeleteFile rules path action =
     (case NewFileRule path action of
        Inl err \<Rightarrow> (rules, Inl err)
      | Inr targetRule \<Rightarrow> deleteMatchingRule rules targetRule REQUESTED)"

definition DeleteExtension :: "IgnoreFile \<Rightarrow> string \<Rightarrow> Action \<Rightarrow> IgnoreFile \<times> (error + Result)" where
  "DeleteExtension rules ext action =
     (case NewExtensionRule ext action of
        Inl err \<Rightarrow> (rules, Inl err)
      | Inr targetRule \<Rightarrow> deleteMatchingRule rules targetRule REQUESTED)"

definition DeleteDirectory ::
  "IgnoreFile \<Rightarrow> string \<Rightarrow> DirectoryMode \<Rightarrow> Action \<Rightarrow> IgnoreFile \<times> (error + Result)" where
  "DeleteDirectory rules name mode action =
     (case NewDirectoryRule name mode action of
        Inl err \<Rightarrow> (rules, Inl err)
      | Inr targetRule \<Rightarrow> deleteMatchingRule rules targetRule REQUESTED)"

definition DeleteGlob :: "IgnoreFile \<Rightarrow> string \<Rightarrow> Action \<Rightarrow> IgnoreFile \<times> (error + Result)" where
  "DeleteGlob rules pattern action =
     (case NewGlobRule pattern action of
        Inl err \<Rightarrow> (rules, Inl err)
      | Inr targetRule \<Rightarrow> deleteMatchingRule rules targetRule REQUESTED)"

section \<open>The line parser\<close>

definition isExtensionPattern :: "string \<Rightarrow> bool" where
  "isExtensionPattern line \<longleftrightarrow>
     HasPrefix line ''*.'' \<and> \<not> Contains (drop 2 line) ''/'' \<and> \<not> Contains (drop 2 line) ''*''"

definition isDirectoryPattern :: "string \<Rightarrow> bool" where
  "isDirectoryPattern line \<longleftrightarrow>
     HasSuffix line ''/'' \<or> HasSuffix line ''/*'' \<or> HasSuffix line ''/**'' \<or>
     HasPrefix line ''**/'' \<or> HasPrefix line ''/''"

text \<open>The switch of \<open>parseDirectoryRule\<close>: the first affix that matches gives the mode and the name.\<close>

definition directoryAffix :: "string \<Rightarrow> (DirectoryMode \<times> string) option" where
  "directoryAffix line =
     (if HasSuffix line ''/**'' then Some (RECURSIVE, TrimSuffix line ''/**'')
      else if HasSuffix line ''/*'' then Some (CHILDREN, TrimSuffix line ''/*'')
      else if HasSuffix line ''/'' then Some (DIRECTORY, TrimSuffix line ''/'')
      else if HasPrefix line ''**/'' then Some (ANYWHERE, TrimPrefix line ''**/'')
      else if HasPrefix line ''/'' then Some (ROOT_ONLY, TrimPrefix line ''/'')
      else None)"

definition parseDirectoryRule :: "string \<Rightarrow> Action \<Rightarrow> error + Ruler" where
  "parseDirectoryRule line action =
     (case directoryAffix line of
        None \<Rightarrow> Inl invalidDirectoryError
      | Some (mode, name) \<Rightarrow> NewDirectoryRule name mode action)"

definition isGlobPattern :: "string \<Rightarrow> bool" where
  "isGlobPattern line \<longleftrightarrow> Contains line ''*'' \<or> Contains line ''?'' \<or> Contains line ''[''"

definition parseRule :: "string \<Rightarrow> error + Ruler" where
  "parseRule line0 =
     (let action = (if HasPrefix line0 ''!'' then EXCLUDE else INCLUDE);
          line = (if HasPrefix line0 ''!'' then drop 1 line0 else line0)
      in if isExtensionPattern line then NewExtensionRule line action
         else if isDirectoryPattern line then parseDirectoryRule line action
         else if isGlobPattern line then NewGlobRule line action
         else NewFileRule line action)"

section \<open>Rules of the documented scenarios\<close>

definition buildDir :: Ruler where
  "buildDir = DirectoryRule ''build'' DIRECTORY INCLUDE"

definition buildRecursive :: Ruler where
  "buildRecursive = DirectoryRule ''build'' RECURSIVE INCLUDE"

definition notBuildImportant :: Ruler where
  "notBuildImportant = FileRule ''build/important.txt'' EXCLUDE"

definition xTxt :: Ruler where
  "xTxt = FileRule ''x.txt'' INCLUDE"

definition logExt :: Ruler where
  "logExt = ExtensionRule ''log'' INCLUDE"

definition txtExt :: Ruler where
  "txtExt = ExtensionRule ''txt'' INCLUDE"

definition todoTxt :: Ruler where
  "todoTxt = FileRule ''todo.txt'' INCLUDE"

definition configInclude :: Ruler where
  "configInclude = FileRule ''config.json'' INCLUDE"

definition configExclude :: Ruler where
  "configExclude = FileRule ''config.json'' EXCLUDE"


definition tempBackup :: Ruler where
  "tempBackup = GlobRule ''temp*.backup'' INCLUDE"

definition buildRecursiveExclude :: Ruler where
  "buildRecursiveExclude = DirectoryRule ''build'' RECURSIVE EXCLUDE"




definition gignoreCli :: Ruler where
  "gignoreCli = FileRule ''gignore-cli'' INCLUDE"

definition debugLog :: Ruler where
  "debugLog = FileRule ''debug.log'' INCLUDE"

definition notImportantLog :: Ruler where
  "notImportantLog = FileRule ''important.log'' EXCLUDE"

definition scenarioF :: IgnoreFile where
  "scenarioF =
     [gignoreCli, buildRecursive, notBuildImportant, debugLog, logExt, notImportantLog, logExt]"

definition buildALog :: Ruler where
  "buildALog = FileRule ''build/a.log'' INCLUDE"

definition oscillating :: IgnoreFile where
  "oscillating = [logExt, buildRecursive, buildALog]"

definition movedALog :: Result where
  "movedALog = \<lparr>Rule = Some buildALog, Result = MOVED, Reason = AUTOMATED_FIX\<rparr>"

definition mixedContainer :: IgnoreFile where
  "mixedContainer = [configInclude, configExclude, logExt, logExt]"

section \<open>Notions used in the statements\<close>

definition firstAt :: "IgnoreFile \<Rightarrow> Ruler \<Rightarrow> nat \<Rightarrow> bool" where
  \<comment> \<open>index \<open>k\<close> holds the first rule of the sequence that equals \<open>target\<close>\<close>
  "firstAt rules target k \<longleftrightarrow>
     k < length rules \<and> rulesEqual (rules ! k) target \<and>
     (\<forall>j<k. \<not> rulesEqual (rules ! j) target)"

definition without :: "IgnoreFile \<Rightarrow> nat \<Rightarrow> IgnoreFile" where
  \<comment> \<open>the sequence with the rule at index \<open>k\<close> removed\<close>
  "without rules k = take k rules @ drop (Suc k) rules"

definition rejected :: "Ruler \<Rightarrow> Ruler \<Rightarrow> Ruler list \<Rightarrow> error option" where
  \<comment> \<open>the error with which the loop of \<open>addRuleWithConflictResolution\<close> returns at \<open>existing\<close>\<close>
  "rejected existing rule intervening =
     (case checkConflict existing rule intervening of
        None \<Rightarrow> None
      | Some conflict \<Rightarrow> conflictError (ConflictType conflict))"

definition reviewResult :: "Conflict \<Rightarrow> Result" where
  \<comment> \<open>the result that \<open>fixConflict\<close> returns for a semantic conflict\<close>
  "reviewResult conflict =
     \<lparr>Rule = Some (Left conflict), Result = REVIEW_RECOMMENDED, Reason = FIX_UNKNOWN\<rparr>"

definition trimmed :: "string \<Rightarrow> bool" where
  \<comment> \<open>no space rune at either end\<close>
  "trimmed s \<longleftrightarrow> leadingSpace s = 0 \<and> trailingSpace s = 0"

definition body :: "Ruler \<Rightarrow> string" where
  \<comment> \<open>the rendered form without the action prefix\<close>
  "body r = drop (length (Action_Prefix (Action r))) (Render r)"

text \<open>
  A canonical line, as the text that follows a rule's action prefix: one line, not
  itself starting with \<open>!\<close>, not the bare \<open>*.\<close>, and, if the parser reads it as a
  directory pattern, with a name that the constructor's cleaning leaves as it is.
\<close>

definition canonicalLine :: "string \<Rightarrow> bool" where
  "canonicalLine line \<longleftrightarrow>
     CHR 0x0A \<notin> set line \<and> \<not> HasPrefix line ''!'' \<and> line \<noteq> ''*.'' \<and>
     (if \<not> isExtensionPattern line \<and> isDirectoryPattern line
      then (case directoryAffix line of
              None \<Rightarrow> False
            | Some (mode, name) \<Rightarrow> validateDirectoryName name = Inr name)
      else True)"

definition onlySemantic :: "IgnoreFile \<Rightarrow> bool" where
  \<comment> \<open>detection on the container returns only semantic conflicts\<close>
  "onlySemantic rules \<longleftrightarrow>
     (\<forall>c \<in> set (FindConflicts rules). ConflictType c = SEMANTIC_CONFLICT)"

section \<open>Basic facts\<close>

declare TrimLeftSpace.simps [simp del]
declare TrimRightSpace.simps [simp del]

lemma conflict_types_distinct:
  "SEMANTIC_CONFLICT \<noteq> REDUNDANT_RULE" "SEMANTIC_CONFLICT \<noteq> UNREACHABLE_RULE"
  "SEMANTIC_CONFLICT \<noteq> INEFFECTIVE_RULE" "REDUNDANT_RULE \<noteq> UNREACHABLE_RULE"
  "REDUNDANT_RULE \<noteq> INEFFECTIVE_RULE" "UNREACHABLE_RULE \<noteq> INEFFECTIVE_RULE"
  "REDUNDANT_RULE \<noteq> SEMANTIC_CONFLICT" "UNREACHABLE_RULE \<noteq> SEMANTIC_CONFLICT"
  "INEFFECTIVE_RULE \<noteq> SEMANTIC_CONFLICT" "UNREACHABLE_RULE \<noteq> REDUNDANT_RULE"
  "INEFFECTIVE_RULE \<noteq> REDUNDANT_RULE" "INEFFECTIVE_RULE \<noteq> UNREACHABLE_RULE"
  by (simp_all add: SEMANTIC_CONFLICT_def REDUNDANT_RULE_def UNREACHABLE_RULE_def
      INEFFECTIVE_RULE_def)

section \<open>Subsumption is irreflexive\<close>

text \<open>
  Claim C5. No rule subsumes itself, whichever of the four variants it is: a file rule
  subsumes nothing, an extension rule and a glob rule subsume no rule of their own
  variant, and a directory rule compared with itself takes the mode branch, where no
  mode subsumes itself. The property needs no validity assumption on the rule.
\<close>

theorem subsumes_irreflexive: "\<not> subsumes r r"
  by (cases r) (simp_all add: dirModeSubsumes_def)

section \<open>The classifier swaps the sides of a reversed subsumption\<close>

text \<open>
  Claim C6. Let \<open>L\<close> come before \<open>R\<close>, with distinct pattern keys and equal actions. If
  \<open>R\<close> subsumes \<open>L\<close>, \<open>L\<close> does not subsume \<open>R\<close>, and no intervening rule is an exception
  for the pair, the classifier returns an \<open>UNREACHABLE_RULE\<close> conflict whose \<open>Left\<close> is
  the later, broader rule \<open>R\<close> and whose \<open>Right\<close> is the earlier, specific rule \<open>L\<close>.
\<close>

theorem checkConflict_reversed_subsumption:
  assumes "Pattern L \<noteq> Pattern R" and "Action L = Action R"
    and "subsumes R L" and "\<not> subsumes L R"
    and "\<not> hasInterveningExceptions R L intervening"
  shows "checkConflict L R intervening =
           Some \<lparr>Left = R, Right = L, ConflictType = UNREACHABLE_RULE\<rparr>"
  using assms by (simp add: checkConflict_def)

theorem checkConflict_reversed_subsumption_witness:
  "Pattern buildDir \<noteq> Pattern buildRecursive \<and> Action buildDir = Action buildRecursive \<and>
   subsumes buildRecursive buildDir \<and> \<not> subsumes buildDir buildRecursive \<and>
   \<not> hasInterveningExceptions buildRecursive buildDir [] \<and>
   checkConflict buildDir buildRecursive [] =
     Some \<lparr>Left = buildRecursive, Right = buildDir, ConflictType = UNREACHABLE_RULE\<rparr>"
proof -
  have h1: "Pattern buildDir \<noteq> Pattern buildRecursive" by code_simp
  have h2: "Action buildDir = Action buildRecursive" by code_simp
  have h3: "subsumes buildRecursive buildDir" by code_simp
  have h4: "\<not> subsumes buildDir buildRecursive" by code_simp
  have h5: "\<not> hasInterveningExceptions buildRecursive buildDir []" by simp
  from checkConflict_reversed_subsumption [OF h1 h2 h3 h4 h5] h1 h2 h3 h4 h5
  show ?thesis by blast
qed

section \<open>Scenario D: the exception placed before the broader rule\<close>

text \<open>
  Claim C2 says that \<open>FindConflicts\<close> returns the empty list on
  \<open>[build/, !build/important.txt, build/**]\<close>. It does not: the detector reports one
  conflict.
\<close>

theorem scenario_D_not_empty:
  "FindConflicts [buildDir, notBuildImportant, buildRecursive] \<noteq> []"
  by code_simp

text \<open>
  Claim C2, amended. On \<open>[build/, !build/important.txt, build/**]\<close> the intervening
  exception rescues the reversed-subsumption pair \<open>(build/, build/**)\<close>, which is not
  reported, and the pair \<open>(build/, !build/important.txt)\<close> is no conflict either; but the
  exception \<open>!build/important.txt\<close> stands before the broader \<open>build/**\<close>, and
  \<open>FindConflicts\<close> returns exactly that pair as an \<open>INEFFECTIVE_RULE\<close> conflict.
\<close>

theorem scenario_D_findConflicts:
  "checkConflict buildDir buildRecursive [notBuildImportant] = None \<and>
   checkConflict buildDir notBuildImportant [] = None \<and>
   FindConflicts [buildDir, notBuildImportant, buildRecursive] =
     [\<lparr>Left = notBuildImportant, Right = buildRecursive, ConflictType = INEFFECTIVE_RULE\<rparr>]"
  by code_simp

section \<open>The fixer stops within its pass budget\<close>

lemma passes_fixPasses: "passes (fixPasses left rules logs done) \<le> done + left"
proof (induction left arbitrary: rules logs "done")
  case 0
  then show ?case by simp
next
  case (Suc left)
  show ?case
  proof (cases "fixEach rules (FindConflicts rules) logs")
    case (fields rules' logs' err)
    then show ?thesis
      using Suc.IH [of rules' logs' "Suc done"]
      by (cases err) (simp_all add: Let_def)
  qed
qed

text \<open>
  Claim C7. \<open>FixConflicts\<close> is a total function: its outer loop is a recursion on the
  number of passes left, its inner loop a recursion on the finite list of conflicts of
  the pass, and detection ranges over the finite rule sequence. Whatever the container
  and whatever \<open>maxPasses\<close> (also zero or negative), the number of passes it enters is at
  most \<open>maxPasses\<close>; no property of the repairs is used, so oscillating repairs and
  conflicts that are never eliminated do not matter.
\<close>

theorem FixConflicts_bounded_passes:
  "int (passes (FixConflicts rules maxPasses)) \<le> max 0 maxPasses"
  using passes_fixPasses [of "nat maxPasses" rules "[]" 0]
  by (simp add: FixConflicts_def)

section \<open>A rejected insertion leaves the container as it was\<close>

lemma insertionPoint_rejects:
  assumes "k < length xs"
    and "rejected (xs ! k) rule (drop (Suc k) xs) = Some e"
    and "\<forall>j<k. rejected (xs ! j) rule (drop (Suc j) xs) = None"
  shows "insertionPoint rule i xs p = Inl e"
  using assms
proof (induction xs arbitrary: k i p)
  case Nil
  then show ?case by simp
next
  case (Cons x xs)
  show ?case
  proof (cases k)
    case 0
    with Cons.prems show ?thesis
      by (auto simp: rejected_def split: option.splits)
  next
    case (Suc k')
    from Cons.prems(3) Suc have x: "rejected x rule xs = None" by auto
    have "insertionPoint rule i' xs p' = Inl e" for i' p'
    proof (rule Cons.IH [of k'])
      show "k' < length xs" using Cons.prems(1) Suc by simp
      show "rejected (xs ! k') rule (drop (Suc k') xs) = Some e"
        using Cons.prems(2) Suc by simp
      show "\<forall>j<k'. rejected (xs ! j) rule (drop (Suc j) xs) = None"
      proof (intro allI impI)
        fix j assume "j < k'"
        then have "Suc j < k" using Suc by simp
        with Cons.prems(3) have "rejected ((x # xs) ! Suc j) rule (drop (Suc (Suc j)) (x # xs)) = None"
          by blast
        then show "rejected (xs ! j) rule (drop (Suc j) xs) = None" by simp
      qed
    qed
    with x show ?thesis
      by (auto simp: rejected_def split: option.splits)
  qed
qed

lemma first_rejecting:
  assumes "rejected (xs ! i) rule (drop (Suc i) xs) \<noteq> None"
  shows "\<exists>k\<le>i. rejected (xs ! k) rule (drop (Suc k) xs) \<noteq> None \<and>
           (\<forall>j<k. rejected (xs ! j) rule (drop (Suc j) xs) = None)"
proof -
  let ?P = "\<lambda>k. rejected (xs ! k) rule (drop (Suc k) xs) \<noteq> None"
  have "?P (LEAST k. ?P k)" using assms by (rule LeastI)
  moreover have "(LEAST k. ?P k) \<le> i" using assms by (rule Least_le)
  moreover have "\<forall>j<(LEAST k. ?P k). \<not> ?P j" using not_less_Least by blast
  ultimately show ?thesis by blast
qed

lemma conflictError_cases:
  "conflictError t = Some e \<Longrightarrow>
     t = SEMANTIC_CONFLICT \<and> e = semanticConflictError \<or>
     t = REDUNDANT_RULE \<and> e = redundantRuleError \<or>
     t = UNREACHABLE_RULE \<and> e = unreachableRuleError"
  by (auto simp: conflictError_def split: if_splits)

text \<open>
  Claim C1. Take any container and any rule. If some existing rule, classified against
  the new rule with the rules after it as intervening rules, gives a
  \<open>SEMANTIC_CONFLICT\<close>, \<open>REDUNDANT_RULE\<close> or \<open>UNREACHABLE_RULE\<close> conflict, then the
  insertion returns the error that corresponds to the classification of an existing rule
  (the first one that rejects, at an index \<open>k \<le> i\<close>), and the rule sequence it leaves is
  the one it was given. In particular \<open>AddFile\<close> of \<open>todo.txt\<close> (INCLUDE) on the container
  \<open>[*.txt]\<close> returns the unreachable-rule error and leaves \<open>[*.txt]\<close>.
\<close>

theorem add_rejection_leaves_container:
  assumes "i < length rules"
    and "checkConflict (rules ! i) rule (drop (Suc i) rules) = Some c"
    and "ConflictType c = SEMANTIC_CONFLICT \<or> ConflictType c = REDUNDANT_RULE \<or>
         ConflictType c = UNREACHABLE_RULE"
  shows "(\<exists>k c'. k \<le> i \<and> checkConflict (rules ! k) rule (drop (Suc k) rules) = Some c' \<and>
            (ConflictType c' = SEMANTIC_CONFLICT \<and>
               addRuleWithConflictResolution rules rule = (rules, Inl semanticConflictError) \<or>
             ConflictType c' = REDUNDANT_RULE \<and>
               addRuleWithConflictResolution rules rule = (rules, Inl redundantRuleError) \<or>
             ConflictType c' = UNREACHABLE_RULE \<and>
               addRuleWithConflictResolution rules rule = (rules, Inl unreachableRuleError))) \<and>
         AddFile [ExtensionRule ''txt'' INCLUDE] ''todo.txt'' INCLUDE =
           ([ExtensionRule ''txt'' INCLUDE], Inl unreachableRuleError)"
proof
  from assms(2,3) have "rejected (rules ! i) rule (drop (Suc i) rules) \<noteq> None"
    by (auto simp: rejected_def conflictError_def)
  from first_rejecting [OF this] obtain k e where k: "k \<le> i"
    and e: "rejected (rules ! k) rule (drop (Suc k) rules) = Some e"
    and first: "\<forall>j<k. rejected (rules ! j) rule (drop (Suc j) rules) = None"
    by auto
  from k assms(1) have "k < length rules" by simp
  from insertionPoint_rejects [OF this e first]
  have add: "addRuleWithConflictResolution rules rule = (rules, Inl e)"
    by (simp add: addRuleWithConflictResolution_def)
  from e obtain c' where c': "checkConflict (rules ! k) rule (drop (Suc k) rules) = Some c'"
    and ce: "conflictError (ConflictType c') = Some e"
    by (auto simp: rejected_def split: option.splits)
  from conflictError_cases [OF ce] add c' k
  show "\<exists>k c'. k \<le> i \<and> checkConflict (rules ! k) rule (drop (Suc k) rules) = Some c' \<and>
            (ConflictType c' = SEMANTIC_CONFLICT \<and>
               addRuleWithConflictResolution rules rule = (rules, Inl semanticConflictError) \<or>
             ConflictType c' = REDUNDANT_RULE \<and>
               addRuleWithConflictResolution rules rule = (rules, Inl redundantRuleError) \<or>
             ConflictType c' = UNREACHABLE_RULE \<and>
               addRuleWithConflictResolution rules rule = (rules, Inl unreachableRuleError))"
    by blast
next
  show "AddFile [ExtensionRule ''txt'' INCLUDE] ''todo.txt'' INCLUDE =
           ([ExtensionRule ''txt'' INCLUDE], Inl unreachableRuleError)"
    by code_simp
qed

theorem add_rejection_leaves_container_witness:
  "checkConflict ([txtExt] ! 0) todoTxt (drop (Suc 0) [txtExt]) =
     Some \<lparr>Left = txtExt, Right = todoTxt, ConflictType = UNREACHABLE_RULE\<rparr> \<and>
   addRuleWithConflictResolution [txtExt] todoTxt = ([txtExt], Inl unreachableRuleError)"
proof -
  have h1: "(0::nat) < length [txtExt]" by simp
  have h2: "checkConflict ([txtExt] ! 0) todoTxt (drop (Suc 0) [txtExt]) =
     Some \<lparr>Left = txtExt, Right = todoTxt, ConflictType = UNREACHABLE_RULE\<rparr>"
    by code_simp
  have h3: "ConflictType \<lparr>Left = txtExt, Right = todoTxt, ConflictType = UNREACHABLE_RULE\<rparr> = SEMANTIC_CONFLICT \<or>
     ConflictType \<lparr>Left = txtExt, Right = todoTxt, ConflictType = UNREACHABLE_RULE\<rparr> = REDUNDANT_RULE \<or>
     ConflictType \<lparr>Left = txtExt, Right = todoTxt, ConflictType = UNREACHABLE_RULE\<rparr> = UNREACHABLE_RULE"
    by simp
  from add_rejection_leaves_container [OF h1 h2 h3]
  obtain k c' where "k \<le> (0::nat)" and "checkConflict ([txtExt] ! k) todoTxt (drop (Suc k) [txtExt]) = Some c'"
    and d: "ConflictType c' = SEMANTIC_CONFLICT \<and>
               addRuleWithConflictResolution [txtExt] todoTxt = ([txtExt], Inl semanticConflictError) \<or>
             ConflictType c' = REDUNDANT_RULE \<and>
               addRuleWithConflictResolution [txtExt] todoTxt = ([txtExt], Inl redundantRuleError) \<or>
             ConflictType c' = UNREACHABLE_RULE \<and>
               addRuleWithConflictResolution [txtExt] todoTxt = ([txtExt], Inl unreachableRuleError)"
    by blast
  then have "c' = \<lparr>Left = txtExt, Right = todoTxt, ConflictType = UNREACHABLE_RULE\<rparr>"
    using h2 by simp
  with d have "addRuleWithConflictResolution [txtExt] todoTxt = ([txtExt], Inl unreachableRuleError)"
    by (simp add: conflict_types_distinct)
  with h2 show ?thesis by simp
qed

section \<open>Repair of an unreachable rule\<close>

lemma firstAt_Cons:
  "firstAt (x # xs) t k \<longleftrightarrow>
     (if rulesEqual x t then k = 0 else \<exists>k'. k = Suc k' \<and> firstAt xs t k')"
proof (cases k)
  case 0
  then show ?thesis by (auto simp: firstAt_def)
next
  case (Suc k')
  have "(\<forall>j<Suc k'. \<not> rulesEqual ((x # xs) ! j) t) \<longleftrightarrow>
        (\<not> rulesEqual x t \<and> (\<forall>j<k'. \<not> rulesEqual (xs ! j) t))"
    by (auto simp: less_Suc_eq_0_disj)
  with Suc show ?thesis by (auto simp: firstAt_def)
qed



lemma deleteMatchingRule_from_firstAt:
  "firstAt xs t k \<Longrightarrow>
   deleteMatchingRule_from rules i xs t reason =
     (without rules (i + k), Inr \<lparr>Rule = Some t, Result = REMOVED, Reason = reason\<rparr>)"
proof (induction xs arbitrary: i k)
  case Nil
  then show ?case by (simp add: firstAt_def)
next
  case (Cons x xs)
  show ?case
  proof (cases "rulesEqual x t")
    case True
    with Cons.prems show ?thesis by (simp add: firstAt_Cons without_def)
  next
    case False
    with Cons.prems obtain k' where "k = Suc k'" "firstAt xs t k'"
      by (auto simp: firstAt_Cons)
    with False Cons.IH [of k' "Suc i"] show ?thesis by simp
  qed
qed

lemma deleteMatchingRule_firstAt:
  "firstAt rules t k \<Longrightarrow>
   deleteMatchingRule rules t reason =
     (without rules k, Inr \<lparr>Rule = Some t, Result = REMOVED, Reason = reason\<rparr>)"
  using deleteMatchingRule_from_firstAt [of rules t k rules 0 reason]
  by (simp add: deleteMatchingRule_def)

lemma firstAt_exists:
  "\<exists>x \<in> set rules. rulesEqual x t \<Longrightarrow> \<exists>k. firstAt rules t k"
proof (induction rules)
  case Nil
  then show ?case by simp
next
  case (Cons x xs)
  then show ?case by (cases "rulesEqual x t") (auto simp: firstAt_Cons)
qed



lemma length_without: "k < length rules \<Longrightarrow> length (without rules k) = length rules - 1"
  by (auto simp: without_def)


lemma firstAt_member: "t \<in> set rules \<Longrightarrow> \<exists>k. firstAt rules t k"
  by (rule firstAt_exists) (auto simp: rulesEqual_def)















section \<open>Semantic conflicts are reported, never repaired\<close>

lemma fixConflict_semantic:
  "ConflictType c = SEMANTIC_CONFLICT \<Longrightarrow> fixConflict rules c = (rules, Inr (reviewResult c))"
  by (simp add: fixConflict_def reviewResult_def conflict_types_distinct)

lemma fixEach_semantic:
  "\<forall>c \<in> set cs. ConflictType c = SEMANTIC_CONFLICT \<Longrightarrow>
   fixEach rules cs logs = (rules, logs @ map reviewResult cs, None)"
  by (induction cs arbitrary: logs) (simp_all add: fixConflict_semantic)

lemma fixPasses_semantic:
  assumes "FindConflicts rules \<noteq> []"
    and "\<forall>c \<in> set (FindConflicts rules). ConflictType c = SEMANTIC_CONFLICT"
  shows "fixPasses left rules logs done =
     \<lparr>rulesAfter = rules,
      fixLogs = logs @ concat (replicate left (map reviewResult (FindConflicts rules))),
      fixError = None, passes = done + left\<rparr>"
  using assms
  by (induction left arbitrary: logs "done") (simp_all add: fixEach_semantic Let_def)

text \<open>
  Claim C9. If detection on the container returns exactly one conflict and that conflict
  is a \<open>SEMANTIC_CONFLICT\<close>, then \<open>FixConflicts\<close> with budget \<open>n\<close> enters all \<open>n\<close> passes,
  leaves the rule sequence unchanged, returns no error, and returns exactly \<open>n\<close> results,
  each the \<open>REVIEW_RECOMMENDED\<close> / \<open>FIX_UNKNOWN\<close> result for the left rule of that conflict.
  (For \<open>n \<le> 0\<close> this is no pass and no result.)
\<close>

theorem FixConflicts_single_semantic:
  assumes "FindConflicts rules = [c]" and "ConflictType c = SEMANTIC_CONFLICT"
  shows "FixConflicts rules n =
     \<lparr>rulesAfter = rules,
      fixLogs = replicate (nat n)
        \<lparr>Rule = Some (Left c), Result = REVIEW_RECOMMENDED, Reason = FIX_UNKNOWN\<rparr>,
      fixError = None, passes = nat n\<rparr>"
proof -
  have "concat (replicate k [reviewResult c]) = replicate k (reviewResult c)" for k
    by (induction k) simp_all
  then show ?thesis
    using assms fixPasses_semantic [of rules "nat n" "[]" 0]
    by (simp add: FixConflicts_def reviewResult_def)
qed

theorem FixConflicts_single_semantic_witness:
  "FindConflicts [configInclude, configExclude] =
     [\<lparr>Left = configInclude, Right = configExclude, ConflictType = SEMANTIC_CONFLICT\<rparr>] \<and>
   FixConflicts [configInclude, configExclude] 3 =
     \<lparr>rulesAfter = [configInclude, configExclude],
      fixLogs = [\<lparr>Rule = Some configInclude, Result = REVIEW_RECOMMENDED, Reason = FIX_UNKNOWN\<rparr>,
                 \<lparr>Rule = Some configInclude, Result = REVIEW_RECOMMENDED, Reason = FIX_UNKNOWN\<rparr>,
                 \<lparr>Rule = Some configInclude, Result = REVIEW_RECOMMENDED, Reason = FIX_UNKNOWN\<rparr>],
      fixError = None, passes = 3\<rparr>"
proof -
  have h: "FindConflicts [configInclude, configExclude] =
     [\<lparr>Left = configInclude, Right = configExclude, ConflictType = SEMANTIC_CONFLICT\<rparr>]"
    by code_simp
  from FixConflicts_single_semantic [OF h, of 3] h show ?thesis
    by (simp add: numeral_3_eq_3)
qed

section \<open>What the fixer leaves after its passes\<close>

lemma fixPasses_onlySemantic:
  assumes "onlySemantic R"
  shows "rulesAfter (fixPasses b R l d) = R \<and> fixError (fixPasses b R l d) = None"
proof (cases "FindConflicts R = []")
  case True
  then show ?thesis by (cases b) simp_all
next
  case False
  with assms show ?thesis by (simp add: onlySemantic_def fixPasses_semantic)
qed

lemma fixPasses_extend:
  assumes "fixError (fixPasses a rules logs done) = None"
  shows "\<exists>l' d'.
     rulesAfter (fixPasses (a + b) rules logs done) =
       rulesAfter (fixPasses b (rulesAfter (fixPasses a rules logs done)) l' d') \<and>
     fixError (fixPasses (a + b) rules logs done) =
       fixError (fixPasses b (rulesAfter (fixPasses a rules logs done)) l' d')"
  using assms
proof (induction a arbitrary: rules logs "done")
  case 0
  then show ?case by auto
next
  case (Suc a)
  show ?case
  proof (cases "FindConflicts rules = []")
    case True
    then have "rulesAfter (fixPasses b rules logs done) = rules \<and>
               fixError (fixPasses b rules logs done) = None"
      by (intro fixPasses_onlySemantic) (simp add: onlySemantic_def)
    with True have "rulesAfter (fixPasses (Suc a + b) rules logs done) =
        rulesAfter (fixPasses b (rulesAfter (fixPasses (Suc a) rules logs done)) logs done) \<and>
      fixError (fixPasses (Suc a + b) rules logs done) =
        fixError (fixPasses b (rulesAfter (fixPasses (Suc a) rules logs done)) logs done)"
      by simp
    then show ?thesis by blast
  next
    case False
    obtain rules' logs' err where f: "fixEach rules (FindConflicts rules) logs = (rules', logs', err)"
      by (cases "fixEach rules (FindConflicts rules) logs") auto
    show ?thesis
    proof (cases err)
      case None
      with False f Suc.prems have "fixError (fixPasses a rules' logs' (Suc done)) = None"
        by (simp add: Let_def)
      from Suc.IH [OF this] False f None show ?thesis by (simp add: Let_def)
    next
      case (Some e)
      with False f Suc.prems show ?thesis by (simp add: Let_def)
    qed
  qed
qed

lemma FixConflicts_budget_monotone:
  assumes "m \<le> n" and "fixError (FixConflicts rules m) = None"
    and "onlySemantic (rulesAfter (FixConflicts rules m))"
  shows "fixError (FixConflicts rules n) = None \<and>
         rulesAfter (FixConflicts rules n) = rulesAfter (FixConflicts rules m)"
proof -
  from assms(1) obtain b where b: "nat n = nat m + b"
    by (metis le_add_diff_inverse nat_mono)
  from assms(2) have "fixError (fixPasses (nat m) rules [] 0) = None"
    by (simp add: FixConflicts_def)
  from fixPasses_extend [OF this, of b] obtain l' d' where
    "rulesAfter (fixPasses (nat m + b) rules [] 0) =
       rulesAfter (fixPasses b (rulesAfter (fixPasses (nat m) rules [] 0)) l' d')"
    "fixError (fixPasses (nat m + b) rules [] 0) =
       fixError (fixPasses b (rulesAfter (fixPasses (nat m) rules [] 0)) l' d')"
    by blast
  with fixPasses_onlySemantic [of "rulesAfter (fixPasses (nat m) rules [] 0)" b l' d'] assms(3) b
  show ?thesis by (simp add: FixConflicts_def)
qed

lemma FindConflicts_Nil: "FindConflicts [] = []"
  by (simp add: FindConflicts_def)

lemma FindConflicts_single: "FindConflicts [x] = []"
  by (simp add: FindConflicts_def List.map_filter_def)

lemma FindConflicts_pair:
  "FindConflicts [l, r] = (case checkConflict l r [] of None \<Rightarrow> [] | Some c \<Rightarrow> [c])"
  by (simp add: FindConflicts_def List.map_filter_def upt_rec split: option.splits)


lemma fixPasses_step:
  assumes "FindConflicts R = [c]" and "fixConflict R c = (R', Inr res)"
  shows "fixPasses (Suc b) R logs d = fixPasses b R' (logs @ [res]) (Suc d)"
  using assms by (simp add: Let_def)

lemma checkConflict_pair_cases:
  "checkConflict l r [] = None \<or>
   checkConflict l r [] = Some \<lparr>Left = l, Right = r, ConflictType = SEMANTIC_CONFLICT\<rparr> \<or>
   Pattern l = Pattern r \<and>
     checkConflict l r [] = Some \<lparr>Left = l, Right = r, ConflictType = REDUNDANT_RULE\<rparr> \<or>
   Pattern l \<noteq> Pattern r \<and>
     checkConflict l r [] = Some \<lparr>Left = l, Right = r, ConflictType = UNREACHABLE_RULE\<rparr> \<or>
   Pattern l \<noteq> Pattern r \<and> Action l = Action r \<and> subsumes r l \<and>
     checkConflict l r [] = Some \<lparr>Left = r, Right = l, ConflictType = UNREACHABLE_RULE\<rparr> \<or>
   Pattern l \<noteq> Pattern r \<and> Action l = EXCLUDE \<and> Action r = INCLUDE \<and>
     checkConflict l r [] = Some \<lparr>Left = l, Right = r, ConflictType = INEFFECTIVE_RULE\<rparr>"
  by (simp add: checkConflict_def)

lemma onlySemantic_small: "onlySemantic []" "onlySemantic [x]"
  by (simp_all add: onlySemantic_def FindConflicts_Nil FindConflicts_single)

lemma delete_first_of_pair:
  "deleteMatchingRule [l, r] l reason =
     ([r], Inr \<lparr>Rule = Some l, Result = REMOVED, Reason = reason\<rparr>)"
  by (simp add: deleteMatchingRule_def rulesEqual_def)

lemma delete_second_of_pair:
  "Pattern l \<noteq> Pattern r \<Longrightarrow>
   deleteMatchingRule [l, r] r reason =
     ([l], Inr \<lparr>Rule = Some r, Result = REMOVED, Reason = reason\<rparr>)"
  by (simp add: deleteMatchingRule_def rulesEqual_def)

lemma findRuleIndex_pair:
  "findRuleIndex [l, r] l = 0"
  "Pattern l \<noteq> Pattern r \<Longrightarrow> findRuleIndex [l, r] r = 1"
  by (simp_all add: findRuleIndex_def rulesEqual_def)

lemma move_first_after_second:
  "Pattern l \<noteq> Pattern r \<Longrightarrow>
   MoveRule [l, r] l r AFTER reason =
     ([r, l], Inr \<lparr>Rule = Some l, Result = MOVED, Reason = reason\<rparr>)"
  by (simp add: MoveRule_def moveRule_def findRuleIndex_pair Let_def)

lemma settles:
  assumes "run = fixPasses b R l' d'" and "onlySemantic R"
  shows "fixError run = None \<and> onlySemantic (rulesAfter run)"
  using fixPasses_onlySemantic [OF assms(2), of b l' d'] assms by (simp del: fixPasses.simps)

lemma pair_settles:
  "fixError (fixPasses (Suc (Suc k)) [l, r] logs d) = None \<and>
   onlySemantic (rulesAfter (fixPasses (Suc (Suc k)) [l, r] logs d))"
proof -
  from checkConflict_pair_cases [of l r] show ?thesis
  proof (elim disjE conjE)
    assume "checkConflict l r [] = None"
    then have "onlySemantic [l, r]" by (simp add: onlySemantic_def FindConflicts_pair)
    with refl show ?thesis by (rule settles)
  next
    assume "checkConflict l r [] =
      Some \<lparr>Left = l, Right = r, ConflictType = SEMANTIC_CONFLICT\<rparr>"
    then have "onlySemantic [l, r]" by (simp add: onlySemantic_def FindConflicts_pair)
    with refl show ?thesis by (rule settles)
  next
    assume c: "checkConflict l r [] =
      Some \<lparr>Left = l, Right = r, ConflictType = REDUNDANT_RULE\<rparr>"
    then have f: "FindConflicts [l, r] = [\<lparr>Left = l, Right = r, ConflictType = REDUNDANT_RULE\<rparr>]"
      by (simp add: FindConflicts_pair)
    have "fixConflict [l, r] \<lparr>Left = l, Right = r, ConflictType = REDUNDANT_RULE\<rparr> =
      ([r], Inr \<lparr>Rule = Some l, Result = REMOVED, Reason = AUTOMATED_FIX\<rparr>)"
      by (simp add: fixConflict_def delete_first_of_pair)
    from fixPasses_step [OF f this] onlySemantic_small(2) show ?thesis by (rule settles)
  next
    assume k: "Pattern l \<noteq> Pattern r" and c: "checkConflict l r [] =
      Some \<lparr>Left = l, Right = r, ConflictType = UNREACHABLE_RULE\<rparr>"
    then have f: "FindConflicts [l, r] = [\<lparr>Left = l, Right = r, ConflictType = UNREACHABLE_RULE\<rparr>]"
      by (simp add: FindConflicts_pair)
    from k have "fixConflict [l, r] \<lparr>Left = l, Right = r, ConflictType = UNREACHABLE_RULE\<rparr> =
      ([l], Inr \<lparr>Rule = Some r, Result = REMOVED, Reason = AUTOMATED_FIX\<rparr>)"
      by (simp add: fixConflict_def conflict_types_distinct findRuleIndex_pair
          delete_second_of_pair)
    from fixPasses_step [OF f this] onlySemantic_small(2) show ?thesis by (rule settles)
  next
    assume k: "Pattern l \<noteq> Pattern r" and a: "Action l = Action r" and s: "subsumes r l"
      and c: "checkConflict l r [] =
      Some \<lparr>Left = r, Right = l, ConflictType = UNREACHABLE_RULE\<rparr>"
    let ?c = "\<lparr>Left = r, Right = l, ConflictType = UNREACHABLE_RULE\<rparr>"
    from c have f1: "FindConflicts [l, r] = [?c]" by (simp add: FindConflicts_pair)
    from k have m1: "fixConflict [l, r] ?c =
      ([r, l], Inr \<lparr>Rule = Some l, Result = MOVED, Reason = AUTOMATED_FIX\<rparr>)"
      using move_first_after_second [of l r AUTOMATED_FIX]
      by (simp add: fixConflict_def conflict_types_distinct findRuleIndex_pair)
    from k a s have "checkConflict r l [] = Some ?c" by (simp add: checkConflict_def)
    then have f2: "FindConflicts [r, l] = [?c]" by (simp add: FindConflicts_pair)
    from k have m2: "fixConflict [r, l] ?c =
      ([r], Inr \<lparr>Rule = Some l, Result = REMOVED, Reason = AUTOMATED_FIX\<rparr>)"
      using findRuleIndex_pair [of r l] delete_second_of_pair [of r l]
      by (simp add: fixConflict_def conflict_types_distinct)
    from fixPasses_step [OF f1 m1] fixPasses_step [OF f2 m2]
    have "fixPasses (Suc (Suc k)) [l, r] logs d =
      fixPasses k [r]
        ((logs @ [\<lparr>Rule = Some l, Result = MOVED, Reason = AUTOMATED_FIX\<rparr>]) @
         [\<lparr>Rule = Some l, Result = REMOVED, Reason = AUTOMATED_FIX\<rparr>]) (Suc (Suc d))"
      by (simp only:)
    from this onlySemantic_small(2) show ?thesis by (rule settles)
  next
    assume k: "Pattern l \<noteq> Pattern r" and al: "Action l = EXCLUDE" and ar: "Action r = INCLUDE"
      and c: "checkConflict l r [] =
      Some \<lparr>Left = l, Right = r, ConflictType = INEFFECTIVE_RULE\<rparr>"
    let ?c = "\<lparr>Left = l, Right = r, ConflictType = INEFFECTIVE_RULE\<rparr>"
    from c have f1: "FindConflicts [l, r] = [?c]" by (simp add: FindConflicts_pair)
    from k have m1: "fixConflict [l, r] ?c =
      ([r, l], Inr \<lparr>Rule = Some l, Result = MOVED, Reason = AUTOMATED_FIX\<rparr>)"
      using move_first_after_second [of l r AUTOMATED_FIX]
      by (simp add: fixConflict_def conflict_types_distinct)
    from k al ar have "checkConflict r l [] = None" by (simp add: checkConflict_def)
    then have "onlySemantic [r, l]" by (simp add: onlySemantic_def FindConflicts_pair)
    with fixPasses_step [OF f1 m1] show ?thesis by (rule settles)
  qed
qed

lemma small_container_settles:
  assumes "length rules \<le> 2" and "2 \<le> n"
  shows "fixError (FixConflicts rules n) = None \<and> onlySemantic (rulesAfter (FixConflicts rules n))"
proof -
  from assms(2) have k: "nat n = Suc (Suc (nat n - 2))" by simp
  have run: "FixConflicts rules n = fixPasses (Suc (Suc (nat n - 2))) rules [] 0"
    using k by (simp only: FixConflicts_def)
  show ?thesis
  proof (cases rules)
    case Nil
    with run have "FixConflicts rules n = fixPasses (Suc (Suc (nat n - 2))) [] [] 0"
      by (simp only:)
    from this onlySemantic_small(1) show ?thesis by (rule settles)
  next
    case (Cons l rest)
    note outer = this
    show ?thesis
    proof (cases rest)
      case Nil
      with outer run have "FixConflicts rules n = fixPasses (Suc (Suc (nat n - 2))) [l] [] 0"
        by (simp only:)
      from this onlySemantic_small(2) show ?thesis by (rule settles)
    next
      case (Cons r rest')
      with outer assms(1) have "rules = [l, r]" by simp
      with run pair_settles [of "nat n - 2" l r "[]" 0] show ?thesis by (simp only:)
    qed
  qed
qed

lemma mixedContainer_one_pass:
  "fixError (FixConflicts mixedContainer 1) = None \<and>
   rulesAfter (FixConflicts mixedContainer 1) = [configInclude, configExclude, logExt] \<and>
   onlySemantic [configInclude, configExclude, logExt] \<and>
   FindConflicts mixedContainer =
     [\<lparr>Left = configInclude, Right = configExclude, ConflictType = SEMANTIC_CONFLICT\<rparr>,
      \<lparr>Left = logExt, Right = logExt, ConflictType = REDUNDANT_RULE\<rparr>] \<and>
   FindConflicts [configInclude, configExclude, logExt] =
     [\<lparr>Left = configInclude, Right = configExclude, ConflictType = SEMANTIC_CONFLICT\<rparr>]"
  by code_simp

lemma scenarioF_two_passes:
  "fixError (FixConflicts scenarioF 2) = None \<and>
   rulesAfter (FixConflicts scenarioF 2) =
     [gignoreCli, buildRecursive, notBuildImportant, logExt, notImportantLog] \<and>
   onlySemantic [gignoreCli, buildRecursive, notBuildImportant, logExt, notImportantLog] \<and>
   FindConflicts [gignoreCli, buildRecursive, notBuildImportant, logExt, notImportantLog] = []"
  by code_simp

lemma oscillating_conflicts:
  "FindConflicts oscillating =
     [\<lparr>Left = logExt, Right = buildALog, ConflictType = UNREACHABLE_RULE\<rparr>,
      \<lparr>Left = buildRecursive, Right = buildALog, ConflictType = UNREACHABLE_RULE\<rparr>]"
  by code_simp

lemma oscillating_repairs:
  "fixConflict oscillating \<lparr>Left = logExt, Right = buildALog, ConflictType = UNREACHABLE_RULE\<rparr> =
     ([logExt, buildALog, buildRecursive], Inr movedALog)"
  "fixConflict [logExt, buildALog, buildRecursive]
     \<lparr>Left = buildRecursive, Right = buildALog, ConflictType = UNREACHABLE_RULE\<rparr> =
     (oscillating, Inr movedALog)"
  by code_simp+

lemma oscillating_pass:
  "fixEach oscillating (FindConflicts oscillating) logs =
     (oscillating, logs @ [movedALog, movedALog], None)"
  by (simp add: oscillating_conflicts oscillating_repairs)

lemma oscillating_passes:
  "rulesAfter (fixPasses b oscillating logs d) = oscillating \<and>
   fixError (fixPasses b oscillating logs d) = None \<and>
   passes (fixPasses b oscillating logs d) = d + b \<and>
   fixLogs (fixPasses b oscillating logs d) = logs @ replicate (2 * b) movedALog"
proof (induction b arbitrary: logs d)
  case 0
  then show ?case by simp
next
  case (Suc b)
  have "FindConflicts oscillating \<noteq> []" by (simp add: oscillating_conflicts)
  then have "fixPasses (Suc b) oscillating logs d =
    fixPasses b oscillating (logs @ [movedALog, movedALog]) (Suc d)"
    by (simp add: oscillating_pass Let_def)
  with Suc.IH [of "logs @ [movedALog, movedALog]" "Suc d"] show ?case
    by (simp add: replicate_append_same)
qed

lemma oscillating_run:
  "rulesAfter (FixConflicts oscillating n) = oscillating \<and>
   fixError (FixConflicts oscillating n) = None \<and>
   fixLogs (FixConflicts oscillating n) = replicate (2 * nat n) movedALog"
  using oscillating_passes [of "nat n" "[]" 0] by (simp add: FixConflicts_def)

text \<open>
  Claim C8 says that after \<open>FixConflicts\<close> with any budget, detection returns only
  \<open>SEMANTIC_CONFLICT\<close> entries. With budget 1 the single pass on
  \<open>[build/**, x.txt, build/]\<close> moves \<open>build/\<close> next to \<open>build/**\<close> and the loop ends,
  with no error; the \<open>UNREACHABLE_RULE\<close> conflict is still there, and it takes a second
  pass to delete \<open>build/\<close>. No budget helps on \<open>[*.log, build/**, build/a.log]\<close>, where
  \<open>build/a.log\<close> is unreachable behind \<open>*.log\<close> and behind \<open>build/**\<close>, neither of
  which subsumes the other: each pass moves \<open>build/a.log\<close> to just after \<open>*.log\<close> and
  then to just after \<open>build/**\<close>, which is where it was. After the 20 passes of budget
  20, with no error, both \<open>UNREACHABLE_RULE\<close> conflicts are still there.
\<close>

theorem FixConflicts_leaves_nonsemantic_counterexample:
  "fixError (FixConflicts [buildRecursive, xTxt, buildDir] 1) = None \<and>
   rulesAfter (FixConflicts [buildRecursive, xTxt, buildDir] 1) =
     [buildRecursive, buildDir, xTxt] \<and>
   FindConflicts (rulesAfter (FixConflicts [buildRecursive, xTxt, buildDir] 1)) =
     [\<lparr>Left = buildRecursive, Right = buildDir, ConflictType = UNREACHABLE_RULE\<rparr>] \<and>
   fixError (FixConflicts [logExt, buildRecursive, buildALog] 20) = None \<and>
   passes (FixConflicts [logExt, buildRecursive, buildALog] 20) = 20 \<and>
   rulesAfter (FixConflicts [logExt, buildRecursive, buildALog] 20) =
     [logExt, buildRecursive, buildALog] \<and>
   FindConflicts (rulesAfter (FixConflicts [logExt, buildRecursive, buildALog] 20)) =
     [\<lparr>Left = logExt, Right = buildALog, ConflictType = UNREACHABLE_RULE\<rparr>,
      \<lparr>Left = buildRecursive, Right = buildALog, ConflictType = UNREACHABLE_RULE\<rparr>] \<and>
   UNREACHABLE_RULE \<noteq> SEMANTIC_CONFLICT"
  by code_simp

text \<open>
  Claim C8, amended. Whether the fixer leaves only \<open>SEMANTIC_CONFLICT\<close> entries depends
  on the container and on the budget. The budget that a container needs is a threshold:
  if \<open>FixConflicts\<close> with budget \<open>m\<close> returns without error and detection on its
  result returns only \<open>SEMANTIC_CONFLICT\<close> entries, then with every budget \<open>n \<ge> m\<close> it
  returns without error and leaves the same container. For every container of at most
  two rules, a budget of 2 is enough: for every \<open>n \<ge> 2\<close> the fixer returns without
  error and detection on the result returns only \<open>SEMANTIC_CONFLICT\<close> entries. On
  \<open>[config.json, !config.json, *.log, *.log]\<close> a budget of 1 is enough: for every
  \<open>n \<ge> 1\<close> one \<open>*.log\<close> is deleted and detection returns the semantic conflict of
  \<open>config.json\<close> alone. On the container of Scenario F a budget of 2 is enough: for
  every \<open>n \<ge> 2\<close> the result is \<open>[gignore-cli, build/**, !build/important.txt, *.log,
  !important.log]\<close> and detection returns nothing. Some containers have no such budget:
  on \<open>[*.log, build/**, build/a.log]\<close>, for every \<open>n\<close>, the fixer returns without
  error after two moves of \<open>build/a.log\<close> in each pass and leaves the container as it
  was, with its two \<open>UNREACHABLE_RULE\<close> conflicts.
\<close>

theorem FixConflicts_then_FindConflicts:
  "(m \<le> n \<and> fixError (FixConflicts rules m) = None \<and>
    onlySemantic (rulesAfter (FixConflicts rules m)) \<longrightarrow>
      fixError (FixConflicts rules n) = None \<and>
      rulesAfter (FixConflicts rules n) = rulesAfter (FixConflicts rules m) \<and>
      onlySemantic (rulesAfter (FixConflicts rules n))) \<and>
   (length rules \<le> 2 \<and> 2 \<le> n \<longrightarrow>
      fixError (FixConflicts rules n) = None \<and>
      onlySemantic (rulesAfter (FixConflicts rules n))) \<and>
   (1 \<le> n \<longrightarrow>
      fixError (FixConflicts mixedContainer n) = None \<and>
      rulesAfter (FixConflicts mixedContainer n) = [configInclude, configExclude, logExt] \<and>
      FindConflicts (rulesAfter (FixConflicts mixedContainer n)) =
        [\<lparr>Left = configInclude, Right = configExclude, ConflictType = SEMANTIC_CONFLICT\<rparr>]) \<and>
   (2 \<le> n \<longrightarrow>
      fixError (FixConflicts scenarioF n) = None \<and>
      rulesAfter (FixConflicts scenarioF n) =
        [gignoreCli, buildRecursive, notBuildImportant, logExt, notImportantLog] \<and>
      FindConflicts (rulesAfter (FixConflicts scenarioF n)) = []) \<and>
   fixError (FixConflicts oscillating n) = None \<and>
   rulesAfter (FixConflicts oscillating n) = oscillating \<and>
   fixLogs (FixConflicts oscillating n) = replicate (2 * nat n) movedALog \<and>
   FindConflicts (rulesAfter (FixConflicts oscillating n)) =
     [\<lparr>Left = logExt, Right = buildALog, ConflictType = UNREACHABLE_RULE\<rparr>,
      \<lparr>Left = buildRecursive, Right = buildALog, ConflictType = UNREACHABLE_RULE\<rparr>]"
proof (intro conjI impI)
  assume h: "m \<le> n \<and> fixError (FixConflicts rules m) = None \<and>
    onlySemantic (rulesAfter (FixConflicts rules m))"
  then have "fixError (FixConflicts rules n) = None \<and>
         rulesAfter (FixConflicts rules n) = rulesAfter (FixConflicts rules m)"
    by (intro FixConflicts_budget_monotone) simp_all
  with h show "fixError (FixConflicts rules n) = None"
    and "rulesAfter (FixConflicts rules n) = rulesAfter (FixConflicts rules m)"
    and "onlySemantic (rulesAfter (FixConflicts rules n))"
    by simp_all
next
  assume "length rules \<le> 2 \<and> 2 \<le> n"
  then have "fixError (FixConflicts rules n) = None \<and>
             onlySemantic (rulesAfter (FixConflicts rules n))"
    by (intro small_container_settles) simp_all
  then show "fixError (FixConflicts rules n) = None"
    and "onlySemantic (rulesAfter (FixConflicts rules n))" by simp_all
next
  assume n: "1 \<le> n"
  from mixedContainer_one_pass
  have "fixError (FixConflicts mixedContainer n) = None \<and>
        rulesAfter (FixConflicts mixedContainer n) = rulesAfter (FixConflicts mixedContainer 1)"
    by (intro FixConflicts_budget_monotone n) simp_all
  with mixedContainer_one_pass
  show "fixError (FixConflicts mixedContainer n) = None"
    and "rulesAfter (FixConflicts mixedContainer n) = [configInclude, configExclude, logExt]"
    and "FindConflicts (rulesAfter (FixConflicts mixedContainer n)) =
        [\<lparr>Left = configInclude, Right = configExclude, ConflictType = SEMANTIC_CONFLICT\<rparr>]"
    by simp_all
next
  assume n: "2 \<le> n"
  from scenarioF_two_passes
  have "fixError (FixConflicts scenarioF n) = None \<and>
        rulesAfter (FixConflicts scenarioF n) = rulesAfter (FixConflicts scenarioF 2)"
    by (intro FixConflicts_budget_monotone n) simp_all
  with scenarioF_two_passes
  show "fixError (FixConflicts scenarioF n) = None"
    and "rulesAfter (FixConflicts scenarioF n) =
        [gignoreCli, buildRecursive, notBuildImportant, logExt, notImportantLog]"
    and "FindConflicts (rulesAfter (FixConflicts scenarioF n)) = []"
    by simp_all
next
  from oscillating_run [of n]
  show "fixError (FixConflicts oscillating n) = None"
    and "rulesAfter (FixConflicts oscillating n) = oscillating"
    and "fixLogs (FixConflicts oscillating n) = replicate (2 * nat n) movedALog"
    by simp_all
  from oscillating_run [of n] oscillating_conflicts
  show "FindConflicts (rulesAfter (FixConflicts oscillating n)) =
     [\<lparr>Left = logExt, Right = buildALog, ConflictType = UNREACHABLE_RULE\<rparr>,
      \<lparr>Left = buildRecursive, Right = buildALog, ConflictType = UNREACHABLE_RULE\<rparr>]"
    by simp
qed

theorem FixConflicts_then_FindConflicts_witness:
  "fixError (FixConflicts [buildRecursive, xTxt, buildDir] 2) = None \<and>
   onlySemantic (rulesAfter (FixConflicts [buildRecursive, xTxt, buildDir] 2)) \<and>
   fixError (FixConflicts [buildRecursive, xTxt, buildDir] 20) = None \<and>
   rulesAfter (FixConflicts [buildRecursive, xTxt, buildDir] 20) = [buildRecursive, xTxt] \<and>
   onlySemantic (rulesAfter (FixConflicts [buildRecursive, xTxt, buildDir] 20)) \<and>
   fixError (FixConflicts [buildDir, buildRecursive] 2) = None \<and>
   onlySemantic (rulesAfter (FixConflicts [buildDir, buildRecursive] 2)) \<and>
   rulesAfter (FixConflicts mixedContainer 20) = [configInclude, configExclude, logExt] \<and>
   rulesAfter (FixConflicts scenarioF 20) =
     [gignoreCli, buildRecursive, notBuildImportant, logExt, notImportantLog]"
proof -
  have h1: "(2::int) \<le> 20 \<and> fixError (FixConflicts [buildRecursive, xTxt, buildDir] 2) = None \<and>
    onlySemantic (rulesAfter (FixConflicts [buildRecursive, xTxt, buildDir] 2))"
    by code_simp
  have r1: "rulesAfter (FixConflicts [buildRecursive, xTxt, buildDir] 2) = [buildRecursive, xTxt]"
    by code_simp
  have h2: "length [buildDir, buildRecursive] \<le> 2 \<and> (2::int) \<le> 2" by simp
  have h3: "(1::int) \<le> 20" and h4: "(2::int) \<le> 20" by simp_all
  note t1 = FixConflicts_then_FindConflicts [where rules = "[buildRecursive, xTxt, buildDir]"
      and m = 2 and n = 20]
  note t2 = FixConflicts_then_FindConflicts [where rules = "[buildDir, buildRecursive]"
      and m = 2 and n = 2]
  from t1 h1 have c1: "fixError (FixConflicts [buildRecursive, xTxt, buildDir] 20) = None \<and>
      rulesAfter (FixConflicts [buildRecursive, xTxt, buildDir] 20) =
        rulesAfter (FixConflicts [buildRecursive, xTxt, buildDir] 2) \<and>
      onlySemantic (rulesAfter (FixConflicts [buildRecursive, xTxt, buildDir] 20))"
    by blast
  from t2 h2 have c2: "fixError (FixConflicts [buildDir, buildRecursive] 2) = None \<and>
      onlySemantic (rulesAfter (FixConflicts [buildDir, buildRecursive] 2))"
    by blast
  from t1 h3 have c3: "rulesAfter (FixConflicts mixedContainer 20) =
      [configInclude, configExclude, logExt]" by blast
  from t1 h4 have c4: "rulesAfter (FixConflicts scenarioF 20) =
     [gignoreCli, buildRecursive, notBuildImportant, logExt, notImportantLog]" by blast
  from h1 r1 c1 c2 c3 c4 show ?thesis by simp
qed

section \<open>Strings: prefixes, suffixes and trimming\<close>

lemma HasPrefix_prefix: "HasPrefix s p \<longleftrightarrow> prefix p s"
proof
  assume "HasPrefix s p"
  then have "s = p @ drop (length p) s"
    by (metis HasPrefix_def append_take_drop_id)
  then show "prefix p s" by (metis prefixI)
next
  assume "prefix p s"
  then show "HasPrefix s p" by (auto simp: HasPrefix_def prefix_def)
qed

lemma HasSuffix_suffix: "HasSuffix s p \<longleftrightarrow> suffix p s"
proof
  assume "HasSuffix s p"
  then have "s = take (length s - length p) s @ p"
    by (metis HasSuffix_def append_take_drop_id)
  then show "suffix p s" by (metis suffixI)
next
  assume "suffix p s"
  then show "HasSuffix s p" by (auto simp: HasSuffix_def suffix_def)
qed

lemma TrimPrefix_append: "TrimPrefix (p @ s) p = s"
  by (simp add: TrimPrefix_def HasPrefix_prefix)

lemma TrimSuffix_append: "TrimSuffix (s @ p) p = s"
  by (simp add: TrimSuffix_def HasSuffix_suffix suffix_def)

lemma HasPrefix_split: "HasPrefix s p \<Longrightarrow> p @ TrimPrefix s p = s"
  by (auto simp: HasPrefix_prefix prefix_def TrimPrefix_append)

lemma HasSuffix_split: "HasSuffix s p \<Longrightarrow> TrimSuffix s p @ p = s"
  by (auto simp: HasSuffix_suffix suffix_def TrimSuffix_append)

lemma Contains_char: "Contains s [c] \<longleftrightarrow> c \<in> set s"
  by (induction s) (auto simp: HasPrefix_def)

lemma spaceRunes_nonempty: "w \<in> set spaceRunes \<Longrightarrow> w \<noteq> []"
  by (auto simp: spaceRunes_def)

lemma spaceRunes_chars:
  "w \<in> set spaceRunes \<Longrightarrow> CHR ''*'' \<notin> set w \<and> CHR ''.'' \<notin> set w"
  by (auto simp: spaceRunes_def)

lemma leadingSpace_zero: "leadingSpace s = 0 \<longleftrightarrow> (\<forall>w \<in> set spaceRunes. \<not> prefix w s)"
  by (auto simp: leadingSpace_def find_None_iff find_Some_iff HasPrefix_prefix
      spaceRunes_nonempty split: option.splits)

lemma trailingSpace_zero: "trailingSpace s = 0 \<longleftrightarrow> (\<forall>w \<in> set spaceRunes. \<not> suffix w s)"
  by (auto simp: trailingSpace_def find_None_iff find_Some_iff HasSuffix_suffix
      spaceRunes_nonempty split: option.splits)

lemma leadingSpace_TrimLeftSpace: "leadingSpace (TrimLeftSpace s) = 0"
  by (induction s rule: TrimLeftSpace.induct) (simp add: TrimLeftSpace.simps)

lemma trailingSpace_TrimRightSpace: "trailingSpace (TrimRightSpace s) = 0"
  by (induction s rule: TrimRightSpace.induct) (simp add: TrimRightSpace.simps)

lemma leadingSpace_take: "leadingSpace s = 0 \<Longrightarrow> leadingSpace (take n s) = 0"
  unfolding leadingSpace_zero
  by (metis append_take_drop_id prefix_order.dual_order.trans prefixI)

lemma leadingSpace_TrimRightSpace:
  "leadingSpace s = 0 \<Longrightarrow> leadingSpace (TrimRightSpace s) = 0"
proof (induction s rule: TrimRightSpace.induct)
  case (1 s)
  show ?case
  proof (cases "trailingSpace s = 0")
    case True
    with "1.prems" show ?thesis by (simp add: TrimRightSpace.simps)
  next
    case False
    with "1.IH" "1.prems" leadingSpace_take show ?thesis
      by (subst TrimRightSpace.simps) simp
  qed
qed

lemma trimmed_TrimSpace: "trimmed (TrimSpace s)"
  by (simp add: trimmed_def TrimSpace_def leadingSpace_TrimRightSpace
      leadingSpace_TrimLeftSpace trailingSpace_TrimRightSpace)

lemma TrimSpace_trimmed: "trimmed s \<Longrightarrow> TrimSpace s = s"
  by (simp add: trimmed_def TrimSpace_def TrimLeftSpace.simps TrimRightSpace.simps)

lemma TrimSpace_idem: "TrimSpace (TrimSpace s) = TrimSpace s"
  by (simp add: TrimSpace_trimmed trimmed_TrimSpace)

lemma trailingSpace_suffix:
  assumes "trailingSpace t = 0" and "suffix e t"
  shows "trailingSpace e = 0"
  using assms unfolding trailingSpace_zero by (meson suffix_order.trans)

lemma validateExtension_Inr:
  assumes "validateExtension s = Inr E"
  shows "E \<noteq> [] \<and> trailingSpace E = 0"
proof -
  from assms have E: "E = TrimPrefix (TrimSpace s) ''*.''" and ne: "E \<noteq> []"
    by (auto simp: validateExtension_def Let_def split: if_splits)
  have "trimmed (TrimSpace s)" by (rule trimmed_TrimSpace)
  then have t: "trailingSpace (TrimSpace s) = 0" by (simp add: trimmed_def)
  have "suffix E (TrimSpace s)"
    unfolding E TrimPrefix_def by (simp add: suffix_drop)
  with t ne show ?thesis by (simp add: trailingSpace_suffix)
qed

lemma trimmed_star_dot:
  assumes "E \<noteq> []" and "trailingSpace E = 0"
  shows "trimmed (''*.'' @ E)"
proof -
  have "\<not> prefix w (''*.'' @ E)" if "w \<in> set spaceRunes" for w
  proof
    assume "prefix w (''*.'' @ E)"
    with spaceRunes_nonempty [OF that] have "hd w = CHR ''*''"
      by (cases w) (auto simp: prefix_def)
    with spaceRunes_nonempty [OF that] spaceRunes_chars [OF that] show False
      by (cases w) auto
  qed
  moreover have "\<not> suffix w (''*.'' @ E)" if "w \<in> set spaceRunes" for w
  proof
    assume "suffix w (''*.'' @ E)"
    then have "suffix w E \<or> (\<exists>w'. w = w' @ E \<and> suffix w' ''*.'')"
      unfolding suffix_append .
    then show False
    proof (elim disjE exE conjE)
      assume "suffix w E"
      with assms(2) that show False by (simp add: trailingSpace_zero)
    next
      fix w' assume w: "w = w' @ E" and s: "suffix w' ''*.''"
      show False
      proof (cases "w' = []")
        case True
        with w have "suffix w E" by simp
        with assms(2) that show False by (simp add: trailingSpace_zero)
      next
        case False
        from s obtain z where z: "''*.'' = z @ w'" unfolding suffix_def by blast
        have "last (z @ w') = last w'" using False by simp
        with z have "last w' = last ''*.''" by simp
        then have "last w' = CHR ''.''" by simp
        with False have "CHR ''.'' \<in> set w'" by (metis last_in_set)
        with w have "CHR ''.'' \<in> set w" by simp
        with spaceRunes_chars [OF that] show False by simp
      qed
    qed
  qed
  ultimately show ?thesis by (simp add: trimmed_def leadingSpace_zero trailingSpace_zero)
qed


section \<open>Deletion compares pattern key and action\<close>

lemma Pattern_ExtensionRule:
  "a = INCLUDE \<or> a = EXCLUDE \<Longrightarrow> Pattern (ExtensionRule E a) = ''*.'' @ E"
  by (auto simp: stripBang_def Action_Prefix_def HasPrefix_def)

lemma firstAt_cong:
  "Pattern t = Pattern t' \<Longrightarrow> Action t = Action t' \<Longrightarrow> firstAt rules t k = firstAt rules t' k"
  by (simp add: firstAt_def rulesEqual_def)

text \<open>
  Claim C10, amended. Deletion looks a rule up by pattern key and action only. Let \<open>a\<close> be
  a valid action. If the container holds an extension rule \<open>ExtensionRule E a\<close> that a
  constructor call returned (\<open>E\<close> is the cleaned form of some input \<open>s\<close>), then
  \<open>DeleteGlob\<close> with pattern \<open>*.E\<close> and action \<open>a\<close> succeeds and removes the first rule
  whose key and action are those of the extension rule (the extension rule itself,
  unless an earlier rule has the same key and action). Symmetrically, if \<open>E\<close> is in
  cleaned form (the constructor keeps \<open>E\<close> as it is) and the container holds the glob
  rule \<open>*.E\<close> with action \<open>a\<close>, then \<open>DeleteExtension\<close> with \<open>E\<close> and \<open>a\<close> succeeds and
  removes the first rule with that key and action.
\<close>

theorem delete_matches_key_and_action:
  assumes "a = INCLUDE \<or> a = EXCLUDE"
  shows "(validateExtension s = Inr E \<and> ExtensionRule E a \<in> set rules \<longrightarrow>
            (\<exists>k. firstAt rules (ExtensionRule E a) k \<and>
                 DeleteGlob rules (''*.'' @ E) a =
                   (without rules k,
                    Inr \<lparr>Rule = Some (GlobRule (''*.'' @ E) a), Result = REMOVED,
                         Reason = REQUESTED\<rparr>))) \<and>
         (validateExtension E = Inr E \<and> GlobRule (''*.'' @ E) a \<in> set rules \<longrightarrow>
            (\<exists>k. firstAt rules (GlobRule (''*.'' @ E) a) k \<and>
                 DeleteExtension rules E a =
                   (without rules k,
                    Inr \<lparr>Rule = Some (ExtensionRule E a), Result = REMOVED,
                         Reason = REQUESTED\<rparr>)))"
proof (intro conjI impI)
  from assms have av: "Action_Validate a = None" by (auto simp: Action_Validate_def)
  have same: "firstAt rules (GlobRule (''*.'' @ E) a) k = firstAt rules (ExtensionRule E a) k"
    for k
    using Pattern_ExtensionRule [OF assms, of E] by (simp add: firstAt_def rulesEqual_def)
  {
    assume h: "validateExtension s = Inr E \<and> ExtensionRule E a \<in> set rules"
    from h validateExtension_Inr have "E \<noteq> []" "trailingSpace E = 0" by blast+
    then have "TrimSpace (''*.'' @ E) = ''*.'' @ E"
      by (intro TrimSpace_trimmed trimmed_star_dot)
    with av have new: "NewGlobRule (''*.'' @ E) a = Inr (GlobRule (''*.'' @ E) a)"
      by (simp add: NewGlobRule_def validateGlobPattern_def)
    from h firstAt_member obtain k where k: "firstAt rules (ExtensionRule E a) k" by blast
    with same have "firstAt rules (GlobRule (''*.'' @ E) a) k" by simp
    from deleteMatchingRule_firstAt [OF this] new k
    show "\<exists>k. firstAt rules (ExtensionRule E a) k \<and>
                 DeleteGlob rules (''*.'' @ E) a =
                   (without rules k,
                    Inr \<lparr>Rule = Some (GlobRule (''*.'' @ E) a), Result = REMOVED,
                         Reason = REQUESTED\<rparr>)"
      by (auto simp: DeleteGlob_def)
  }
  {
    assume h: "validateExtension E = Inr E \<and> GlobRule (''*.'' @ E) a \<in> set rules"
    with av have new: "NewExtensionRule E a = Inr (ExtensionRule E a)"
      by (simp add: NewExtensionRule_def)
    from h firstAt_member obtain k where k: "firstAt rules (GlobRule (''*.'' @ E) a) k" by blast
    with same have "firstAt rules (ExtensionRule E a) k" by simp
    from deleteMatchingRule_firstAt [OF this] new k
    show "\<exists>k. firstAt rules (GlobRule (''*.'' @ E) a) k \<and>
                 DeleteExtension rules E a =
                   (without rules k,
                    Inr \<lparr>Rule = Some (ExtensionRule E a), Result = REMOVED,
                         Reason = REQUESTED\<rparr>)"
      by (auto simp: DeleteExtension_def)
  }
qed

text \<open>
  Claim C10 says that a stored glob rule \<open>*.E\<close> is matched by \<open>DeleteExtension\<close> with
  \<open>E\<close>, for the extension \<open>E\<close> of any extension rule. The extension \<open>E = *.x\<close> is one a
  constructor returns (from the input \<open>*.*.x\<close>), and the glob rule \<open>*.*.x\<close> is not found
  by \<open>DeleteExtension\<close> with \<open>*.x\<close>: the constructor cleans the argument to \<open>x\<close> first.
\<close>

theorem DeleteExtension_cleans_its_argument:
  "validateExtension ''*.*.x'' = Inr ''*.x'' \<and>
   DeleteExtension [GlobRule ''*.*.x'' INCLUDE] ''*.x'' INCLUDE =
     ([GlobRule ''*.*.x'' INCLUDE], Inl ruleNotFoundError)"
  by code_simp

theorem delete_matches_key_and_action_witness:
  "validateExtension ''*.txt'' = Inr ''txt'' \<and>
   firstAt [todoTxt, txtExt] (ExtensionRule ''txt'' INCLUDE) 1 \<and>
   DeleteGlob [todoTxt, txtExt] ''*.txt'' INCLUDE =
     ([todoTxt], Inr \<lparr>Rule = Some (GlobRule ''*.txt'' INCLUDE), Result = REMOVED,
                      Reason = REQUESTED\<rparr>) \<and>
   validateExtension ''txt'' = Inr ''txt'' \<and>
   firstAt [todoTxt, GlobRule ''*.txt'' INCLUDE] (GlobRule ''*.txt'' INCLUDE) 1 \<and>
   DeleteExtension [todoTxt, GlobRule ''*.txt'' INCLUDE] ''txt'' INCLUDE =
     ([todoTxt], Inr \<lparr>Rule = Some (ExtensionRule ''txt'' INCLUDE), Result = REMOVED,
                      Reason = REQUESTED\<rparr>)"
proof -
  have a: "INCLUDE = INCLUDE \<or> INCLUDE = EXCLUDE" by simp
  have v1: "validateExtension ''*.txt'' = Inr ''txt''" by code_simp
  have v2: "validateExtension ''txt'' = Inr ''txt''" by code_simp
  have m1: "ExtensionRule ''txt'' INCLUDE \<in> set [todoTxt, txtExt]"
    by (simp add: txtExt_def)
  have m2: "GlobRule (''*.'' @ ''txt'') INCLUDE \<in> set [todoTxt, GlobRule ''*.txt'' INCLUDE]"
    by simp
  have ne: "\<not> rulesEqual todoTxt (ExtensionRule ''txt'' INCLUDE)"
    "\<not> rulesEqual todoTxt (GlobRule ''*.txt'' INCLUDE)"
    "rulesEqual txtExt (ExtensionRule ''txt'' INCLUDE)"
    "rulesEqual (GlobRule ''*.txt'' INCLUDE) (GlobRule ''*.txt'' INCLUDE)"
    by code_simp+
  then have f1: "firstAt [todoTxt, txtExt] (ExtensionRule ''txt'' INCLUDE) k \<longleftrightarrow> k = 1"
    and f2: "firstAt [todoTxt, GlobRule ''*.txt'' INCLUDE] (GlobRule ''*.txt'' INCLUDE) k \<longleftrightarrow> k = 1"
    for k
    by (auto simp: firstAt_Cons)
  from delete_matches_key_and_action [OF a, where s = "''*.txt''" and E = "''txt''"
      and rules = "[todoTxt, txtExt]"] v1 m1
  obtain k where k: "firstAt [todoTxt, txtExt] (ExtensionRule ''txt'' INCLUDE) k"
    and d: "DeleteGlob [todoTxt, txtExt] (''*.'' @ ''txt'') INCLUDE =
           (without [todoTxt, txtExt] k,
            Inr \<lparr>Rule = Some (GlobRule (''*.'' @ ''txt'') INCLUDE), Result = REMOVED,
                 Reason = REQUESTED\<rparr>)"
    by blast
  from k f1 have "k = 1" by simp
  with d have c1: "DeleteGlob [todoTxt, txtExt] ''*.txt'' INCLUDE =
     ([todoTxt], Inr \<lparr>Rule = Some (GlobRule ''*.txt'' INCLUDE), Result = REMOVED,
                      Reason = REQUESTED\<rparr>)"
    by (simp add: without_def)
  from delete_matches_key_and_action [OF a, where s = "''txt''" and E = "''txt''"
      and rules = "[todoTxt, GlobRule ''*.txt'' INCLUDE]"] v2 m2
  obtain k' where k': "firstAt [todoTxt, GlobRule ''*.txt'' INCLUDE] (GlobRule (''*.'' @ ''txt'') INCLUDE) k'"
    and d': "DeleteExtension [todoTxt, GlobRule ''*.txt'' INCLUDE] ''txt'' INCLUDE =
           (without [todoTxt, GlobRule ''*.txt'' INCLUDE] k',
            Inr \<lparr>Rule = Some (ExtensionRule ''txt'' INCLUDE), Result = REMOVED,
                 Reason = REQUESTED\<rparr>)"
    by blast
  from k' f2 have "k' = 1" by simp
  with d' have c2: "DeleteExtension [todoTxt, GlobRule ''*.txt'' INCLUDE] ''txt'' INCLUDE =
     ([todoTxt], Inr \<lparr>Rule = Some (ExtensionRule ''txt'' INCLUDE), Result = REMOVED,
                      Reason = REQUESTED\<rparr>)"
    by (simp add: without_def)
  from v1 v2 c1 c2 f1 f2 show ?thesis by simp
qed

section \<open>Parsing a rendered rule\<close>

lemma Action_Validate_None: "Action_Validate a = None \<longleftrightarrow> a = INCLUDE \<or> a = EXCLUDE"
  by (simp add: Action_Validate_def)

lemma NewFileRule_Inr:
  "NewFileRule s a = Inr r \<longleftrightarrow>
     (\<exists>p. validatePath s = Inr p \<and> Action_Validate a = None \<and> r = FileRule p a)"
  by (cases "validatePath s"; cases "Action_Validate a") (auto simp: NewFileRule_def)

lemma NewExtensionRule_Inr:
  "NewExtensionRule s a = Inr r \<longleftrightarrow>
     (\<exists>e. validateExtension s = Inr e \<and> Action_Validate a = None \<and> r = ExtensionRule e a)"
  by (cases "validateExtension s"; cases "Action_Validate a") (auto simp: NewExtensionRule_def)

lemma NewGlobRule_Inr:
  "NewGlobRule s a = Inr r \<longleftrightarrow>
     (\<exists>p. validateGlobPattern s = Inr p \<and> Action_Validate a = None \<and> r = GlobRule p a)"
  by (cases "validateGlobPattern s"; cases "Action_Validate a") (auto simp: NewGlobRule_def)

lemma NewDirectoryRule_Inr:
  "NewDirectoryRule s m a = Inr r \<longleftrightarrow>
     (\<exists>n. validateDirectoryName s = Inr n \<and> DirectoryMode_Validate m = None \<and>
          Action_Validate a = None \<and> r = DirectoryRule n m a)"
  by (cases "validateDirectoryName s"; cases "DirectoryMode_Validate m"; cases "Action_Validate a")
     (auto simp: NewDirectoryRule_def)

lemma validRule_action: "validRule r \<Longrightarrow> Action r = INCLUDE \<or> Action r = EXCLUDE"
  by (cases r)
     (auto simp: NewFileRule_Inr NewExtensionRule_Inr NewDirectoryRule_Inr NewGlobRule_Inr
        Action_Validate_None)

lemma Render_body: "Render r = Action_Prefix (Action r) @ body r"
  by (cases r) (simp_all add: body_def)

lemma stripBang_prefixed:
  assumes "a = INCLUDE \<or> a = EXCLUDE" and "\<not> HasPrefix K ''!''"
  shows "stripBang (Action_Prefix a @ K) = K"
  using assms by (auto simp: stripBang_def Action_Prefix_def HasPrefix_def)

lemma Pattern_body:
  assumes "Action r = INCLUDE \<or> Action r = EXCLUDE" and "\<not> HasPrefix (body r) ''!''"
  shows "Pattern r = body r"
proof (cases r)
  case (FileRule p a)
  then show ?thesis by (simp add: body_def)
next
  case (GlobRule g a)
  then show ?thesis by (simp add: body_def)
next
  case (ExtensionRule e a)
  with assms stripBang_prefixed [of a "body r"] Render_body [of r] show ?thesis by simp
next
  case (DirectoryRule n m a)
  with assms stripBang_prefixed [of a "body r"] Render_body [of r] show ?thesis by simp
qed

lemma parseRule_Render:
  assumes "Action r = INCLUDE \<or> Action r = EXCLUDE" and "\<not> HasPrefix (body r) ''!''"
  shows "parseRule (Render r) =
     (if isExtensionPattern (body r) then NewExtensionRule (body r) (Action r)
      else if isDirectoryPattern (body r) then parseDirectoryRule (body r) (Action r)
      else if isGlobPattern (body r) then NewGlobRule (body r) (Action r)
      else NewFileRule (body r) (Action r))"
proof -
  from assms(1) show ?thesis
  proof
    assume "Action r = INCLUDE"
    with assms(2) Render_body [of r] show ?thesis
      by (simp add: parseRule_def Action_Prefix_def)
  next
    assume "Action r = EXCLUDE"
    with Render_body [of r] have "Render r = CHR ''!'' # body r"
      by (simp add: Action_Prefix_def)
    with \<open>Action r = EXCLUDE\<close> show ?thesis
      by (simp add: parseRule_def HasPrefix_def)
  qed
qed

lemma validatePath_trimmed: "validatePath s = Inr p \<Longrightarrow> TrimSpace p = p \<and> p \<noteq> []"
  by (auto simp: validatePath_def Let_def TrimSpace_idem split: if_splits)

lemma validateGlobPattern_trimmed: "validateGlobPattern s = Inr p \<Longrightarrow> TrimSpace p = p \<and> p \<noteq> []"
  by (auto simp: validateGlobPattern_def Let_def TrimSpace_idem split: if_splits)

lemma valid_body_trimmed:
  assumes "validRule r" and "\<not> (\<not> isExtensionPattern (body r) \<and> isDirectoryPattern (body r))"
    and "\<And>n m a. r = DirectoryRule n m a \<Longrightarrow>
           \<not> isExtensionPattern (body r) \<and> isDirectoryPattern (body r)"
  shows "TrimSpace (body r) = body r \<and> body r \<noteq> []"
proof (cases r)
  case (FileRule p a)
  with assms(1) validatePath_trimmed show ?thesis
    by (auto simp: body_def NewFileRule_Inr)
next
  case (GlobRule g a)
  with assms(1) validateGlobPattern_trimmed show ?thesis
    by (auto simp: body_def NewGlobRule_Inr)
next
  case (ExtensionRule e a)
  with assms(1) obtain s where "validateExtension s = Inr e"
    by (auto simp: NewExtensionRule_Inr)
  from validateExtension_Inr [OF this] have "trimmed (''*.'' @ e)"
    by (intro trimmed_star_dot) simp_all
  then have "TrimSpace (''*.'' @ e) = ''*.'' @ e" by (rule TrimSpace_trimmed)
  moreover have "body r = ''*.'' @ e" using ExtensionRule by (simp add: body_def)
  ultimately show ?thesis by simp
next
  case (DirectoryRule n m a)
  with assms(2,3) show ?thesis by blast
qed

lemma HasSuffix_append: "HasSuffix (s @ p) p"
  by (simp add: HasSuffix_def)

lemma HasPrefix_append: "HasPrefix (p @ s) p"
  by (simp add: HasPrefix_def)

lemma not_isExtensionPattern_slash:
  assumes "n \<noteq> []"
  shows "\<not> isExtensionPattern (n @ CHR ''/'' # rest)"
proof
  assume e: "isExtensionPattern (n @ CHR ''/'' # rest)"
  then have p: "HasPrefix (n @ CHR ''/'' # rest) ''*.''"
    and c: "\<not> Contains (drop 2 (n @ CHR ''/'' # rest)) ''/''"
    by (simp_all add: isExtensionPattern_def)
  from assms obtain c1 n1 where n: "n = c1 # n1" by (cases n) auto
  show False
  proof (cases n1)
    case Nil
    with n p show False by (simp add: HasPrefix_def)
  next
    case (Cons c2 n2)
    with n c have "\<not> Contains (n2 @ CHR ''/'' # rest) ''/''" by simp
    then show False by (simp add: Contains_char)
  qed
qed

lemma valid_directory_shape:
  assumes "validRule (DirectoryRule n m a)"
  shows "\<not> isExtensionPattern (body (DirectoryRule n m a)) \<and>
         isDirectoryPattern (body (DirectoryRule n m a))"
proof -
  from assms have ne: "n \<noteq> []"
    and m: "m = DIRECTORY \<or> m = CHILDREN \<or> m = RECURSIVE \<or> m = ANYWHERE \<or> m = ROOT_ONLY"
    by (auto simp: NewDirectoryRule_Inr validateDirectoryName_def Let_def
        DirectoryMode_Validate_def split: if_splits)
  have b: "body (DirectoryRule n m a) = DirectoryMode_Prefix m @ n @ DirectoryMode_Suffix m"
    by (simp add: body_def)
  from m show ?thesis
  proof (elim disjE)
    assume "m = DIRECTORY"
    then have k: "body (DirectoryRule n m a) = n @ ''/''"
      unfolding b by (simp add: DirectoryMode_Prefix_def DirectoryMode_Suffix_def)
    have "HasSuffix (n @ ''/'') ''/''" by (rule HasSuffix_append)
    with not_isExtensionPattern_slash [OF ne, of "[]"] show ?thesis
      unfolding k by (simp add: isDirectoryPattern_def)
  next
    assume "m = CHILDREN"
    then have k: "body (DirectoryRule n m a) = n @ ''/*''"
      unfolding b by (simp add: DirectoryMode_Prefix_def DirectoryMode_Suffix_def)
    have "HasSuffix (n @ ''/*'') ''/*''" by (rule HasSuffix_append)
    with not_isExtensionPattern_slash [OF ne, of "''*''"] show ?thesis
      unfolding k by (simp add: isDirectoryPattern_def)
  next
    assume "m = RECURSIVE"
    then have k: "body (DirectoryRule n m a) = n @ ''/**''"
      unfolding b by (simp add: DirectoryMode_Prefix_def DirectoryMode_Suffix_def)
    have "HasSuffix (n @ ''/**'') ''/**''" by (rule HasSuffix_append)
    with not_isExtensionPattern_slash [OF ne, of "''**''"] show ?thesis
      unfolding k by (simp add: isDirectoryPattern_def)
  next
    assume "m = ANYWHERE"
    then have k: "body (DirectoryRule n m a) = ''**/'' @ n"
      unfolding b by (simp add: DirectoryMode_Prefix_def DirectoryMode_Suffix_def)
    show ?thesis
      unfolding k by (simp add: isDirectoryPattern_def isExtensionPattern_def HasPrefix_def)
  next
    assume "m = ROOT_ONLY"
    then have k: "body (DirectoryRule n m a) = ''/'' @ n"
      unfolding b by (simp add: DirectoryMode_Prefix_def DirectoryMode_Suffix_def)
    show ?thesis
      unfolding k by (simp add: isDirectoryPattern_def isExtensionPattern_def HasPrefix_def)
  qed
qed

lemma directoryAffix_Some:
  assumes "directoryAffix K = Some (m, n)"
  shows "DirectoryMode_Prefix m @ n @ DirectoryMode_Suffix m = K \<and>
         DirectoryMode_Validate m = None"
proof -
  consider (rec) "HasSuffix K ''/**''" "m = RECURSIVE" "n = TrimSuffix K ''/**''"
    | (chi) "HasSuffix K ''/*''" "m = CHILDREN" "n = TrimSuffix K ''/*''"
    | (dir) "HasSuffix K ''/''" "m = DIRECTORY" "n = TrimSuffix K ''/''"
    | (any) "HasPrefix K ''**/''" "m = ANYWHERE" "n = TrimPrefix K ''**/''"
    | (root) "HasPrefix K ''/''" "m = ROOT_ONLY" "n = TrimPrefix K ''/''"
    using assms by (simp add: directoryAffix_def split: if_splits)
  then show ?thesis
  proof cases
    case rec
    with HasSuffix_split [OF rec(1)] show ?thesis
      by (simp add: DirectoryMode_Prefix_def DirectoryMode_Suffix_def DirectoryMode_Validate_def)
  next
    case chi
    with HasSuffix_split [OF chi(1)] show ?thesis
      by (simp add: DirectoryMode_Prefix_def DirectoryMode_Suffix_def DirectoryMode_Validate_def)
  next
    case dir
    with HasSuffix_split [OF dir(1)] show ?thesis
      by (simp add: DirectoryMode_Prefix_def DirectoryMode_Suffix_def DirectoryMode_Validate_def)
  next
    case any
    with HasPrefix_split [OF any(1)] show ?thesis
      by (simp add: DirectoryMode_Prefix_def DirectoryMode_Suffix_def DirectoryMode_Validate_def)
  next
    case root
    with HasPrefix_split [OF root(1)] show ?thesis
      by (simp add: DirectoryMode_Prefix_def DirectoryMode_Suffix_def DirectoryMode_Validate_def)
  qed
qed

text \<open>
  Claim C3, amended. Let \<open>r\<close> be a valid rule of any variant and either action whose
  rendered form, after the action prefix of \<open>r\<close>, is a canonical line. Then parsing the
  rendered form succeeds and gives a rule equal to \<open>r\<close>: the same pattern key and the
  same action. (The parsed rule may be of another variant: the file rule \<open>build/\<close> is
  read back as a directory rule with the same key.)
\<close>

theorem parse_render_roundtrip:
  assumes "validRule r" and "canonicalLine (body r)"
  shows "\<exists>r'. parseRule (Render r) = Inr r' \<and> rulesEqual r' r \<and>
              Pattern r' = Pattern r \<and> Action r' = Action r"
proof -
  let ?K = "body r" and ?a = "Action r"
  note av = validRule_action [OF assms(1)]
  then have avn: "Action_Validate ?a = None" by (simp add: Action_Validate_None)
  from assms(2) have nb: "\<not> HasPrefix ?K ''!''" and nsd: "?K \<noteq> ''*.''"
    by (simp_all add: canonicalLine_def)
  note pr = parseRule_Render [OF av nb]
  note pat = Pattern_body [OF av nb]
  have shape: "\<not> isExtensionPattern ?K \<and> isDirectoryPattern ?K" if "r = DirectoryRule n m a" for n m a
    using valid_directory_shape [of n m a] assms(1) that by simp
  have "\<exists>r'. parseRule (Render r) = Inr r' \<and> Pattern r' = ?K \<and> Action r' = ?a"
  proof (cases "isExtensionPattern ?K")
    case True
    then have "\<not> (\<not> isExtensionPattern ?K \<and> isDirectoryPattern ?K)" by simp
    from valid_body_trimmed [OF assms(1) this shape]
    have t: "TrimSpace ?K = ?K" by simp
    from True have hp: "HasPrefix ?K ''*.''" by (simp add: isExtensionPattern_def)
    then have tp: "TrimPrefix ?K ''*.'' = drop 2 ?K"
      by (simp add: TrimPrefix_def numeral_2_eq_2)
    from HasPrefix_split [OF hp] tp have split: "''*.'' @ drop 2 ?K = ?K" by simp
    with nsd have ne: "drop 2 ?K \<noteq> []" by auto
    from t tp ne have "validateExtension ?K = Inr (drop 2 ?K)"
      by (simp add: validateExtension_def Let_def)
    with avn have "NewExtensionRule ?K ?a = Inr (ExtensionRule (drop 2 ?K) ?a)"
      by (simp add: NewExtensionRule_Inr)
    moreover have "Pattern (ExtensionRule (drop 2 ?K) ?a) = ?K"
      using Pattern_ExtensionRule [OF av, of "drop 2 ?K"] split by simp
    ultimately show ?thesis using True pr by auto
  next
    case False
    show ?thesis
    proof (cases "isDirectoryPattern ?K")
      case True
      with False assms(2) obtain m n where af: "directoryAffix ?K = Some (m, n)"
        and vn: "validateDirectoryName n = Inr n"
        by (auto simp: canonicalLine_def split: option.splits)
      from directoryAffix_Some [OF af]
      have k: "DirectoryMode_Prefix m @ n @ DirectoryMode_Suffix m = ?K"
        and mv: "DirectoryMode_Validate m = None" by simp_all
      from af vn mv avn have "parseDirectoryRule ?K ?a = Inr (DirectoryRule n m ?a)"
        by (simp add: parseDirectoryRule_def NewDirectoryRule_Inr)
      moreover have "Pattern (DirectoryRule n m ?a) = ?K"
        using stripBang_prefixed [OF av nb] k by simp
      ultimately show ?thesis using False True pr by auto
    next
      case nd: False
      then have "\<not> (\<not> isExtensionPattern ?K \<and> isDirectoryPattern ?K)" by simp
      from valid_body_trimmed [OF assms(1) this shape]
      have t: "TrimSpace ?K = ?K" and ne: "?K \<noteq> []" by simp_all
      from t ne avn have "NewGlobRule ?K ?a = Inr (GlobRule ?K ?a)"
        and "NewFileRule ?K ?a = Inr (FileRule ?K ?a)"
        by (simp_all add: NewGlobRule_Inr NewFileRule_Inr validateGlobPattern_def
            validatePath_def Let_def)
      with False nd pr show ?thesis by (cases "isGlobPattern ?K") auto
    qed
  qed
  with pat show ?thesis by (auto simp: rulesEqual_def)
qed

text \<open>
  Claim C3 asks of the rendered form only that it be a single canonical line. The valid
  rule \<open>FileRule !foo\<close> with action INCLUDE renders as the line \<open>!foo\<close>, the very line
  that the rule \<open>FileRule foo\<close> with action EXCLUDE renders as and is parsed back from;
  parsing it gives that other rule, which has neither the key nor the action of the
  first.
\<close>

theorem bang_path_not_restored:
  "NewFileRule ''!foo'' INCLUDE = Inr (FileRule ''!foo'' INCLUDE) \<and>
   Render (FileRule ''!foo'' INCLUDE) = ''!foo'' \<and>
   parseRule ''!foo'' = Inr (FileRule ''foo'' EXCLUDE) \<and>
   Render (FileRule ''foo'' EXCLUDE) = ''!foo'' \<and>
   \<not> rulesEqual (FileRule ''foo'' EXCLUDE) (FileRule ''!foo'' INCLUDE)"
  by code_simp

theorem parse_render_roundtrip_witness:
  "validRule notBuildImportant \<and> canonicalLine (body notBuildImportant) \<and>
   (\<exists>r'. parseRule (Render notBuildImportant) = Inr r' \<and> rulesEqual r' notBuildImportant \<and>
         Pattern r' = Pattern notBuildImportant \<and> Action r' = Action notBuildImportant) \<and>
   validRule logExt \<and> canonicalLine (body logExt) \<and>
   (\<exists>r'. parseRule (Render logExt) = Inr r' \<and> rulesEqual r' logExt \<and>
         Pattern r' = Pattern logExt \<and> Action r' = Action logExt) \<and>
   validRule buildRecursiveExclude \<and> canonicalLine (body buildRecursiveExclude) \<and>
   (\<exists>r'. parseRule (Render buildRecursiveExclude) = Inr r' \<and>
         rulesEqual r' buildRecursiveExclude \<and>
         Pattern r' = Pattern buildRecursiveExclude \<and>
         Action r' = Action buildRecursiveExclude) \<and>
   validRule tempBackup \<and> canonicalLine (body tempBackup) \<and>
   (\<exists>r'. parseRule (Render tempBackup) = Inr r' \<and> rulesEqual r' tempBackup \<and>
         Pattern r' = Pattern tempBackup \<and> Action r' = Action tempBackup)"
proof -
  have "NewFileRule ''build/important.txt'' EXCLUDE = Inr (FileRule ''build/important.txt'' EXCLUDE)"
    by code_simp
  then have v1: "validRule notBuildImportant"
    unfolding notBuildImportant_def validRule.simps
    by (intro exI [where x = "''build/important.txt''"])
  have "NewExtensionRule ''log'' INCLUDE = Inr (ExtensionRule ''log'' INCLUDE)"
    by code_simp
  then have v2: "validRule logExt"
    unfolding logExt_def validRule.simps by (intro exI [where x = "''log''"])
  have "NewDirectoryRule ''build'' RECURSIVE EXCLUDE = Inr (DirectoryRule ''build'' RECURSIVE EXCLUDE)"
    by code_simp
  then have v3: "validRule buildRecursiveExclude"
    unfolding buildRecursiveExclude_def validRule.simps by (intro exI [where x = "''build''"])
  have "NewGlobRule ''temp*.backup'' INCLUDE = Inr (GlobRule ''temp*.backup'' INCLUDE)"
    by code_simp
  then have v4: "validRule tempBackup"
    unfolding tempBackup_def validRule.simps by (intro exI [where x = "''temp*.backup''"])
  have c1: "canonicalLine (body notBuildImportant)" by code_simp
  have c2: "canonicalLine (body logExt)" by code_simp
  have c3: "canonicalLine (body buildRecursiveExclude)" by code_simp
  have c4: "canonicalLine (body tempBackup)" by code_simp
  from parse_render_roundtrip [OF v1 c1] parse_render_roundtrip [OF v2 c2]
    parse_render_roundtrip [OF v3 c3] parse_render_roundtrip [OF v4 c4]
    v1 v2 v3 v4 c1 c2 c3 c4
  show ?thesis by (intro conjI)
qed

end
